theory Spec2Isabelle
  imports Main
begin

section \<open>Data model of the autograder (models.py)\<close>

text \<open>
  Primary keys are natural numbers. Texts are Python strings, modelled as
  \<^typ>\<open>string\<close>; \<open>len\<close> is \<^const>\<open>length\<close> and indexing is \<open>!\<close>, which the
  source only uses inside \<open>range(len(test_output))\<close>.
\<close>

record testcase =
  tc_pk :: nat
  tc_assignment :: nat
  tc_input :: string
  tc_output :: string

record testoutput =
  to_submission :: nat
  to_testcase :: nat
  to_output :: string

text \<open>
  A \<open>Submission\<close> instance as the methods see it (\<open>self\<close>). The field \<open>adding\<close>
  is Django's \<open>self._state.adding\<close>; \<open>compiles\<close> is a non-null
  \<open>BooleanField(default=False)\<close>, hence a \<^typ>\<open>bool\<close>.
\<close>

record submission =
  sub_pk :: nat
  student :: nat
  assignment :: nat
  confirmed :: bool
  source_file :: string
  compiles :: bool
  adding :: bool

subsection \<open>The result dictionaries built by \<open>test_results\<close>\<close>

record annotated =
  a_char :: char
  incorrect :: bool
  newline :: bool

record test_result =
  passed :: bool
  res_input :: string
  res_output :: "annotated list"
  missing_output :: int

record results =
  res_compiles :: bool
  tests :: "test_result list"

section \<open>Result comparison (the dictionary literal in \<open>test_results\<close>)\<close>

text \<open>
  One entry of the list comprehension over \<open>range(len(test_output))\<close>. Python's
  \<open>or\<close> evaluates \<open>test_output[i] != testcase.output[i]\<close> only when
  \<open>i < len(testcase.output)\<close>; the conditional keeps that order.
\<close>

definition annotate_char :: "string \<Rightarrow> string \<Rightarrow> nat \<Rightarrow> annotated" where
  "annotate_char test_output expected i =
     \<lparr> a_char = test_output ! i,
       incorrect = (if i \<ge> length expected then True
                    else test_output ! i \<noteq> expected ! i),
       newline = (test_output ! i = CHR 0x0A) \<rparr>"

definition annotate :: "string \<Rightarrow> string \<Rightarrow> annotated list" where
  "annotate test_output expected =
     map (annotate_char test_output expected) [0 ..< length test_output]"

definition make_result :: "string \<Rightarrow> testcase \<Rightarrow> test_result" where
  "make_result test_output tc =
     \<lparr> passed = (test_output = tc_output tc),
       res_input = tc_input tc,
       res_output = annotate test_output (tc_output tc),
       missing_output = int (length (tc_output tc)) - int (length test_output) \<rparr>"

section \<open>The persistent state and its environment\<close>

text \<open>
  Everything the pipeline reads or writes outside the instance: the
  \<open>TestCase\<close>, \<open>TestOutput\<close> and \<open>Submission\<close> tables, the uploaded source files
  under \<open>student-files\<close> (a set of paths), the build contexts
  \<open>MEDIA_ROOT/docker/context-<pk>\<close> with the files written into them, the images
  and the not yet removed containers of the container engine, \<open>log.txt\<close>, and
  the sequence of external calls issued so far (the compiler and every call of
  the engine's client, whether it returned or raised).
\<close>

datatype image_tag = SubmissionImage nat  \<comment> \<open>\<open>gav-autograder/submission-<pk>\<close>\<close>

datatype ctx_file = StudentProgram | Dockerfile | InputFile nat

datatype cstatus = Created | Running | Exited

type_synonym container = "image_tag \<times> nat"  \<comment> \<open>image and test-case key of its command\<close>

datatype event =
    Gpp nat
  | ImagesBuild image_tag
  | ImagesRemove "image_tag option"
  | ContainersCreate "image_tag option" nat
  | ContainerStart container
  | ContainerWait container
  | ContainerLogs container
  | ContainerRemove container
  | ContainerStop container
  | ContainerKill container

datatype field = Student | Assignment | Confirmed | SourceFile | Compiles

record world =
  testcases :: "testcase list"
  testoutputs :: "testoutput list"
  submissions :: "nat \<rightharpoonup> submission"
  student_files :: "string set"
  context_dirs :: "nat \<rightharpoonup> ctx_file list"
  images :: "image_tag set"
  containers :: "(container \<times> cstatus) list"
  log_txt :: string
  trace :: "event list"

text \<open>
  The exceptions that leave the methods. A raise is \<open>Inl\<close>; the state reached
  when it was raised is returned beside it, since Python undoes nothing.
\<close>

datatype error =
    FileExistsError
  | FileNotFoundError
  | BuildError
  | ImageNotFound
  | APIError
  | ReadTimeout
  | MultipleObjectsReturned
  | DatabaseError
  | UnicodeDecodeError
  | TypeError

text \<open>
  What the outside world answers. \<open>compile_ok\<close>: \<open>g++\<close> on that source path
  exits with status 0 within the 2 seconds of \<open>check_call\<close> (anything else is
  caught by the bare \<open>except\<close>). \<open>build_ok\<close>: \<open>images.build\<close> returns rather
  than raises. \<open>run\<close>: how the container of one test case behaves. A program
  that ends within the 5 seconds of \<open>container.wait\<close>, with whatever exit
  status, \<open>Finishes\<close> with its logs when they decode as UTF-8 and is
  \<open>Undecodable\<close> when they do not, so that \<open>container.logs().decode()\<close>
  raises; one that does not end makes \<open>wait\<close> raise, as the client library
  documents, and is left running; \<open>EngineFails\<close> makes \<open>containers.create\<close>
  raise. \<open>new_path\<close> is the value of \<open>submission_path\<close>, which reads the clock.
\<close>

datatype run_outcome = Finishes string | Undecodable | TimesOut string | EngineFails

record env =
  compile_ok :: "string \<Rightarrow> bool"
  build_ok :: "image_tag \<Rightarrow> bool"
  run :: "image_tag \<Rightarrow> nat \<Rightarrow> run_outcome"
  new_path :: "submission \<Rightarrow> string"

definition emit :: "event list \<Rightarrow> world \<Rightarrow> world" where
  "emit evs w = w\<lparr>trace := trace w @ evs\<rparr>"

text \<open>\<open>self.assignment.testcase_set.all()\<close>\<close>

definition testcase_set :: "submission \<Rightarrow> world \<Rightarrow> testcase list" where
  "testcase_set self w = filter (\<lambda>t. tc_assignment t = assignment self) (testcases w)"

text \<open>\<open>self.testoutput_set.filter(testcase=testcase)\<close>\<close>

definition testoutput_rows :: "submission \<Rightarrow> testcase \<Rightarrow> world \<Rightarrow> testoutput list" where
  "testoutput_rows self tc w =
     filter (\<lambda>r. to_submission r = sub_pk self \<and> to_testcase r = tc_pk tc) (testoutputs w)"

section \<open>Build, run and clean up (methods of \<open>Submission\<close>)\<close>

text \<open>
  \<open>docker_prep\<close>: \<open>os.makedirs\<close> raises when the context directory is already
  there; a failed compilation removes the directory and returns \<open>None\<close>; a
  failed image build raises out of the method with the directory in place.
\<close>

definition docker_prep ::
  "env \<Rightarrow> submission \<Rightarrow> world \<Rightarrow> (error + image_tag option) \<times> world" where
  "docker_prep e self w =
     (let pk = sub_pk self; image_tag = SubmissionImage pk in
      if context_dirs w pk \<noteq> None then (Inl FileExistsError, w)
      else
        let w1 = emit [Gpp pk] (w\<lparr>context_dirs := (context_dirs w)(pk \<mapsto> [])\<rparr>) in
        if \<not> compile_ok e (source_file self)
        then (Inr None, w1\<lparr>context_dirs := (context_dirs w1)(pk := None)\<rparr>)
        else
          let files = [StudentProgram, Dockerfile]
                        @ map (\<lambda>t. InputFile (tc_pk t)) (testcase_set self w1);
              w2 = emit [ImagesBuild image_tag]
                     (w1\<lparr>context_dirs := (context_dirs w1)(pk \<mapsto> files)\<rparr>)
          in if \<not> build_ok e image_tag then (Inl BuildError, w2)
             else (Inr (Some image_tag), w2\<lparr>images := insert image_tag (images w2)\<rparr>))"

text \<open>
  \<open>single_test\<close>: create, start, wait, logs and their decoding, remove, append
  to the log, create the \<open>TestOutput\<close> row, in that order and with no handler
  around any of them: whichever raises leaves the later ones undone.
  \<open>containers.create\<close> raises without an image (the tag is \<open>None\<close> or names no
  image).
\<close>

definition single_test ::
  "env \<Rightarrow> submission \<Rightarrow> image_tag option \<Rightarrow> testcase \<Rightarrow> world
     \<Rightarrow> (error + string) \<times> world" where
  "single_test e self image_tag tc w =
     (let w1 = emit [ContainersCreate image_tag (tc_pk tc)] w in
      case image_tag of
        None \<Rightarrow> (Inl APIError, w1)
      | Some tag \<Rightarrow>
          (if tag \<notin> images w1 then (Inl ImageNotFound, w1)
           else
            let c = (tag, tc_pk tc) in
            (case run e tag (tc_pk tc) of
               EngineFails \<Rightarrow> (Inl APIError, w1)
             | TimesOut partial \<Rightarrow>
                 (Inl ReadTimeout,
                  emit [ContainerStart c, ContainerWait c]
                    (w1\<lparr>containers := containers w1 @ [(c, Running)]\<rparr>))
             | Undecodable \<Rightarrow>
                 (Inl UnicodeDecodeError,
                  emit [ContainerStart c, ContainerWait c, ContainerLogs c]
                    (w1\<lparr>containers := containers w1 @ [(c, Exited)]\<rparr>))
             | Finishes container_output \<Rightarrow>
                 (let w2 = emit [ContainerStart c, ContainerWait c,
                                 ContainerLogs c, ContainerRemove c] w1;
                      w3 = w2\<lparr>log_txt := log_txt w2 @ ''Test output:'' @ [CHR 0x0A]
                                            @ container_output\<rparr>;
                      w4 = w3\<lparr>testoutputs := testoutputs w3 @
                              [\<lparr>to_submission = sub_pk self, to_testcase = tc_pk tc,
                                to_output = container_output\<rparr>]\<rparr>
                  in (Inr container_output, w4)))))"

text \<open>\<open>docker_cleanup\<close>: remove the image, then the context directory.\<close>

definition docker_cleanup ::
  "submission \<Rightarrow> image_tag option \<Rightarrow> world \<Rightarrow> (error + unit) \<times> world" where
  "docker_cleanup self image_tag w =
     (let w1 = emit [ImagesRemove image_tag] w in
      case image_tag of
        None \<Rightarrow> (Inl APIError, w1)
      | Some tag \<Rightarrow>
          if tag \<notin> images w1 then (Inl ImageNotFound, w1)
          else
            let w2 = w1\<lparr>images := images w1 - {tag}\<rparr> in
            if context_dirs w2 (sub_pk self) = None then (Inl FileNotFoundError, w2)
            else (Inr (), w2\<lparr>context_dirs := (context_dirs w2)(sub_pk self := None)\<rparr>))"

text \<open>The loop of \<open>full_test\<close> over the test cases of the assignment.\<close>

fun run_all ::
  "env \<Rightarrow> submission \<Rightarrow> image_tag option \<Rightarrow> testcase list \<Rightarrow> world
     \<Rightarrow> (error + unit) \<times> world" where
  "run_all e self image_tag [] w = (Inr (), w)"
| "run_all e self image_tag (tc # tcs) w =
     (case single_test e self image_tag tc w of
        (Inl err, w1) \<Rightarrow> (Inl err, w1)
      | (Inr _, w1) \<Rightarrow> run_all e self image_tag tcs w1)"

definition full_test :: "env \<Rightarrow> submission \<Rightarrow> world \<Rightarrow> (error + bool) \<times> world" where
  "full_test e self w =
     (let w0 = w\<lparr>testoutputs :=
                   filter (\<lambda>r. to_submission r \<noteq> sub_pk self) (testoutputs w)\<rparr> in
      case docker_prep e self w0 of
        (Inl err, w1) \<Rightarrow> (Inl err, w1)
      | (Inr None, w1) \<Rightarrow> (Inr False, w1)
      | (Inr (Some image_tag), w1) \<Rightarrow>
          (case run_all e self (Some image_tag) (testcase_set self w1) w1 of
             (Inl err, w2) \<Rightarrow> (Inl err, w2)
           | (Inr _, w2) \<Rightarrow>
               (case docker_cleanup self (Some image_tag) w2 of
                  (Inl err, w3) \<Rightarrow> (Inl err, w3)
                | (Inr _, w3) \<Rightarrow> (Inr True, w3))))"

section \<open>Saving a submission\<close>

text \<open>
  \<open>delete_source_file\<close>: the file goes if it exists. Directories are not
  tracked (files are a set of paths), so the pruning of empty parent
  directories has nothing to act on here.
\<close>

definition delete_source_file :: "submission \<Rightarrow> world \<Rightarrow> world" where
  "delete_source_file self w =
     (if source_file self \<in> student_files w
      then w\<lparr>student_files := student_files w - {source_file self}\<rparr>
      else w)"

text \<open>
  The \<open>pre_save\<close> receiver of \<open>Submission\<close>. Its \<open>on_commit\<close> callbacks run at
  once, as they do outside a transaction block (and as the receiver's comment
  on the moved file assumes). \<open>os.rename\<close> raises when the old file is missing.
\<close>

definition move_or_delete_submission_file ::
  "env \<Rightarrow> submission \<Rightarrow> field list option \<Rightarrow> world \<Rightarrow> (error + submission) \<times> world" where
  "move_or_delete_submission_file e instance update_fields w =
     (case update_fields of
        None \<Rightarrow> (Inr instance, w)
      | Some fs \<Rightarrow>
          (if adding instance then (Inr instance, w)
           else if SourceFile \<in> set fs then
             (case submissions w (sub_pk instance) of
                None \<Rightarrow> (Inl DatabaseError, w)
              | Some old_submission \<Rightarrow> (Inr instance, delete_source_file old_submission w))
           else if Student \<in> set fs \<or> Assignment \<in> set fs then
             (let old_path = source_file instance; new_name = new_path e instance in
              if old_path \<notin> student_files w then (Inl FileNotFoundError, w)
              else (Inr (instance\<lparr>source_file := new_name\<rparr>),
                    w\<lparr>student_files := insert new_name (student_files w - {old_path})\<rparr>))
           else (Inr instance, w)))"

text \<open>
  The framework's \<open>Model.save\<close> (\<open>super().save\<close>), as far as the state above
  goes: an empty \<open>update_fields\<close> returns at once; otherwise the receiver runs,
  then the row is written, whole or only in the named columns (which needs the
  row to exist), an uploaded file being stored with its column, and the
  instance is no longer \<open>adding\<close>.
\<close>

definition write_fields :: "field list \<Rightarrow> submission \<Rightarrow> submission \<Rightarrow> submission" where
  "write_fields fs inst row =
     row\<lparr> student := (if Student \<in> set fs then student inst else student row),
          assignment := (if Assignment \<in> set fs then assignment inst else assignment row),
          confirmed := (if Confirmed \<in> set fs then confirmed inst else confirmed row),
          source_file := (if SourceFile \<in> set fs then source_file inst else source_file row),
          compiles := (if Compiles \<in> set fs then compiles inst else compiles row) \<rparr>"

definition super_save ::
  "env \<Rightarrow> field list option \<Rightarrow> submission \<Rightarrow> world \<Rightarrow> (error + submission) \<times> world" where
  "super_save e update_fields self w =
     (if update_fields = Some [] then (Inr self, w)
      else
        case move_or_delete_submission_file e self update_fields w of
          (Inl err, w1) \<Rightarrow> (Inl err, w1)
        | (Inr self1, w1) \<Rightarrow>
            (let self2 = self1\<lparr>adding := False\<rparr> in
             case update_fields of
               None \<Rightarrow>
                 (Inr self2,
                  w1\<lparr>submissions := (submissions w1)(sub_pk self2 \<mapsto> self2),
                      student_files := insert (source_file self2) (student_files w1)\<rparr>)
             | Some fs \<Rightarrow>
                 (case submissions w1 (sub_pk self2) of
                    None \<Rightarrow> (Inl DatabaseError, w1)
                  | Some row \<Rightarrow>
                      (Inr self2,
                       w1\<lparr>submissions :=
                             (submissions w1)(sub_pk self2 \<mapsto> write_fields fs self2 row),
                           student_files :=
                             (if SourceFile \<in> set fs
                              then insert (source_file self2) (student_files w1)
                              else student_files w1)\<rparr>))))"

text \<open>
  \<open>Submission.save\<close>. \<open>run_tests\<close> is the keyword argument of that name,
  \<open>None\<close> when the call does not give it, as no call in the repository does.
  The method forwards all its keywords to \<open>super().save\<close>, whose signature has
  no such parameter: given the keyword, with either value, the call raises
  \<open>TypeError\<close> before a signal is sent or a row written. Without it
  \<open>kwargs.get('run_tests', True)\<close> is \<open>True\<close> and the tests run.
\<close>

definition save ::
  "env \<Rightarrow> field list option \<Rightarrow> bool option \<Rightarrow> submission \<Rightarrow> world
     \<Rightarrow> (error + submission) \<times> world" where
  "save e update_fields run_tests self w =
     (case run_tests of
        Some given \<Rightarrow> (Inl TypeError, w)
      | None \<Rightarrow>
          (case super_save e update_fields self w of
             (Inl err, w1) \<Rightarrow> (Inl err, w1)
           | (Inr self1, w1) \<Rightarrow>
               (case full_test e self1 w1 of
                  (Inl err, w2) \<Rightarrow> (Inl err, w2)
                | (Inr b, w2) \<Rightarrow>
                    super_save e (Some [Compiles]) (self1\<lparr>compiles := b\<rparr>) w2)))"

section \<open>Lazy evaluation (\<open>test_results\<close>)\<close>

text \<open>
  The loop of \<open>test_results\<close>. \<open>client\<close> is \<open>None\<close> while \<open>docker_client\<close> is
  \<open>None\<close>, and afterwards holds \<open>image_tag\<close>, which is itself \<open>None\<close> when
  \<open>docker_prep\<close> returned \<open>None\<close>. \<open>QuerySet.get\<close> raises \<open>DoesNotExist\<close>, which
  is caught, on no row and \<open>MultipleObjectsReturned\<close>, which is not, on several.
\<close>

fun resolve_all ::
  "env \<Rightarrow> submission \<Rightarrow> testcase list \<Rightarrow> image_tag option option
     \<Rightarrow> test_result list \<Rightarrow> world
     \<Rightarrow> (error + test_result list \<times> image_tag option option) \<times> world" where
  "resolve_all e self [] client acc w = (Inr (acc, client), w)"
| "resolve_all e self (tc # tcs) client acc w =
     (case testoutput_rows self tc w of
        [r] \<Rightarrow> resolve_all e self tcs client (acc @ [make_result (to_output r) tc]) w
      | _ # _ # _ \<Rightarrow> (Inl MultipleObjectsReturned, w)
      | [] \<Rightarrow>
          (case (case client of
                   None \<Rightarrow> docker_prep e self w
                 | Some image_tag \<Rightarrow> (Inr image_tag, w)) of
             (Inl err, w1) \<Rightarrow> (Inl err, w1)
           | (Inr image_tag, w1) \<Rightarrow>
               (case single_test e self image_tag tc w1 of
                  (Inl err, w2) \<Rightarrow> (Inl err, w2)
                | (Inr test_output, w2) \<Rightarrow>
                    resolve_all e self tcs (Some image_tag)
                      (acc @ [make_result test_output tc]) w2)))"

definition test_results :: "env \<Rightarrow> submission \<Rightarrow> world \<Rightarrow> (error + results) \<times> world" where
  "test_results e self w =
     (if \<not> adding self \<and> \<not> compiles self
      then (Inr \<lparr>res_compiles = compiles self, tests = []\<rparr>, w)
      else
        case resolve_all e self (testcase_set self w) None [] w of
          (Inl err, w1) \<Rightarrow> (Inl err, w1)
        | (Inr (ts, client), w1) \<Rightarrow>
            (case client of
               None \<Rightarrow> (Inr \<lparr>res_compiles = compiles self, tests = ts\<rparr>, w1)
             | Some image_tag \<Rightarrow>
                 (case docker_cleanup self image_tag w1 of
                    (Inl err, w2) \<Rightarrow> (Inl err, w2)
                  | (Inr _, w2) \<Rightarrow> (Inr \<lparr>res_compiles = compiles self, tests = ts\<rparr>, w2))))"

section \<open>Saving a test case\<close>

text \<open>
  The \<open>pre_save\<close> receiver of \<open>TestCase\<close>, and the save that sends the signal
  and then writes the row.
\<close>

definition delete_obsolete_testoutputs :: "bool \<Rightarrow> testcase \<Rightarrow> world \<Rightarrow> world" where
  "delete_obsolete_testoutputs is_adding instance w =
     (if is_adding then w
      else w\<lparr>testoutputs :=
               filter (\<lambda>r. to_testcase r \<noteq> tc_pk instance) (testoutputs w)\<rparr>)"

definition testcase_save :: "bool \<Rightarrow> testcase \<Rightarrow> world \<Rightarrow> world" where
  "testcase_save is_adding instance w =
     (let w1 = delete_obsolete_testoutputs is_adding instance w in
      w1\<lparr>testcases :=
           (if is_adding then testcases w1 @ [instance]
            else map (\<lambda>t. if tc_pk t = tc_pk instance then instance else t)
                     (testcases w1))\<rparr>)"

section \<open>Notions used to state the properties\<close>

text \<open>
  The logs a finished run produced, the \<open>TestOutput\<close> row and the log entry that
  \<open>single_test\<close> makes of them, the engine calls of one successful test, the
  files of a complete build context, the cached results of the other
  submissions, and the uniqueness of the (submission, test case) pair.
\<close>

definition captured :: "run_outcome \<Rightarrow> string" where
  "captured out =
     (case out of Finishes s \<Rightarrow> s | Undecodable \<Rightarrow> [] | TimesOut s \<Rightarrow> []
      | EngineFails \<Rightarrow> [])"

definition new_row :: "env \<Rightarrow> submission \<Rightarrow> image_tag \<Rightarrow> testcase \<Rightarrow> testoutput" where
  "new_row e self tag tc =
     \<lparr>to_submission = sub_pk self, to_testcase = tc_pk tc,
      to_output = captured (run e tag (tc_pk tc))\<rparr>"

definition test_events :: "image_tag \<Rightarrow> testcase \<Rightarrow> event list" where
  "test_events tag tc =
     [ContainersCreate (Some tag) (tc_pk tc),
      ContainerStart (tag, tc_pk tc), ContainerWait (tag, tc_pk tc),
      ContainerLogs (tag, tc_pk tc), ContainerRemove (tag, tc_pk tc)]"

definition log_entry :: "env \<Rightarrow> image_tag \<Rightarrow> testcase \<Rightarrow> string" where
  "log_entry e tag tc = ''Test output:'' @ [CHR 0x0A] @ captured (run e tag (tc_pk tc))"

definition context_files :: "testcase list \<Rightarrow> ctx_file list" where
  "context_files tcs = [StudentProgram, Dockerfile] @ map (\<lambda>t. InputFile (tc_pk t)) tcs"

definition others :: "submission \<Rightarrow> world \<Rightarrow> testoutput list" where
  "others self w = filter (\<lambda>r. to_submission r \<noteq> sub_pk self) (testoutputs w)"

definition pair_of :: "testoutput \<Rightarrow> nat \<times> nat" where
  "pair_of r = (to_submission r, to_testcase r)"

definition unique_pairs :: "world \<Rightarrow> bool" where
  "unique_pairs w = distinct (map pair_of (testoutputs w))"

subsection \<open>A small instance\<close>

text \<open>
  One assignment with one test case expecting \<open>5\<close> and a line feed, submission 1
  with a stale cached result, and a cached result of submission 2.
\<close>

definition example_testcase :: testcase where
  "example_testcase =
     \<lparr>tc_pk = 1, tc_assignment = 1, tc_input = ''3'', tc_output = [CHR ''5'', CHR 0x0A]\<rparr>"

definition example_submission :: submission where
  "example_submission =
     \<lparr>sub_pk = 1, student = 7, assignment = 1, confirmed = False,
      source_file = ''a.cpp'', compiles = False, adding = False\<rparr>"

definition other_row :: testoutput where
  "other_row = \<lparr>to_submission = 2, to_testcase = 1, to_output = ''4''\<rparr>"

definition stale_row :: testoutput where
  "stale_row = \<lparr>to_submission = 1, to_testcase = 1, to_output = ''6''\<rparr>"

definition example_world :: world where
  "example_world =
     \<lparr>testcases = [example_testcase], testoutputs = [stale_row, other_row],
      submissions = [1 \<mapsto> example_submission], student_files = {''a.cpp''},
      context_dirs = Map.empty, images = {}, containers = [], log_txt = [], trace = []\<rparr>"

definition example_env :: "bool \<Rightarrow> bool \<Rightarrow> run_outcome \<Rightarrow> env" where
  "example_env c b out =
     \<lparr>compile_ok = (\<lambda>_. c), build_ok = (\<lambda>_. b), run = (\<lambda>_ _. out), new_path = (\<lambda>_. ''b.cpp'')\<rparr>"

definition example_output :: string where
  "example_output = [CHR ''5'', CHR 0x0A]"

definition fresh_row :: testoutput where
  "fresh_row = \<lparr>to_submission = 1, to_testcase = 1, to_output = example_output\<rparr>"

text \<open>
  Submission 1 once it has been graded as compiling, and the state in which an
  evaluation of it has then raised out of the image build.
\<close>

definition graded_submission :: submission where
  "graded_submission = example_submission\<lparr>compiles := True\<rparr>"

definition graded_world :: world where
  "graded_world = example_world\<lparr>submissions := [1 \<mapsto> graded_submission]\<rparr>"

definition stale_world :: world where
  "stale_world =
     snd (full_test (example_env True False EngineFails) graded_submission graded_world)"

definition stored :: "submission \<Rightarrow> world \<Rightarrow> string \<Rightarrow> testcase \<Rightarrow> bool" where
  "stored self w out tc \<longleftrightarrow>
     \<lparr>to_submission = sub_pk self, to_testcase = tc_pk tc, to_output = out\<rparr> \<in> set (testoutputs w)"

definition forced_stop :: "event \<Rightarrow> bool" where
  "forced_stop ev =
     (case ev of ContainerStop _ \<Rightarrow> True | ContainerKill _ \<Rightarrow> True | _ \<Rightarrow> False)"

section \<open>Properties of the comparison\<close>



lemma chars_annotate: "map a_char (annotate a e) = a"
  by (rule nth_equalityI) (simp_all add: annotate_def annotate_char_def)



section \<open>What each method does to the state\<close>

lemma single_test_Inr:
  assumes "single_test e self image_tag tc w = (Inr out, w')"
  shows "\<exists>tag. image_tag = Some tag \<and> tag \<in> images w \<and> run e tag (tc_pk tc) = Finishes out \<and>
         w' = w\<lparr>testoutputs := testoutputs w @ [new_row e self tag tc],
                 log_txt := log_txt w @ ''Test output:'' @ [CHR 0x0A] @ out,
                 trace := trace w @ [ContainersCreate image_tag (tc_pk tc),
                    ContainerStart (tag, tc_pk tc), ContainerWait (tag, tc_pk tc),
                    ContainerLogs (tag, tc_pk tc), ContainerRemove (tag, tc_pk tc)]\<rparr>"
  using assms
  by (auto simp: single_test_def emit_def Let_def new_row_def captured_def
           split: option.splits if_splits run_outcome.splits)

lemma single_test_Finishes:
  assumes "tag \<in> images w" "run e tag (tc_pk tc) = Finishes out"
  shows "single_test e self (Some tag) tc w = (Inr out,
           w\<lparr>testoutputs := testoutputs w @ [new_row e self tag tc],
                 log_txt := log_txt w @ ''Test output:'' @ [CHR 0x0A] @ out,
                 trace := trace w @ [ContainersCreate (Some tag) (tc_pk tc),
                    ContainerStart (tag, tc_pk tc), ContainerWait (tag, tc_pk tc),
                    ContainerLogs (tag, tc_pk tc), ContainerRemove (tag, tc_pk tc)]\<rparr>)"
  using assms
  by (simp add: single_test_def emit_def Let_def new_row_def captured_def)

lemma single_test_frame:
  "single_test e self image_tag tc w = (r, w') \<Longrightarrow>
     testcases w' = testcases w \<and> submissions w' = submissions w \<and>
     student_files w' = student_files w \<and> context_dirs w' = context_dirs w \<and>
     images w' = images w"
  by (auto simp: single_test_def emit_def Let_def
           split: option.splits if_splits run_outcome.splits)

lemma docker_prep_frame:
  "docker_prep e self w = (r, w') \<Longrightarrow>
     testcases w' = testcases w \<and> testoutputs w' = testoutputs w \<and>
     submissions w' = submissions w \<and> student_files w' = student_files w \<and>
     containers w' = containers w \<and> log_txt w' = log_txt w"
  by (auto simp: docker_prep_def emit_def Let_def split: if_splits)

lemma docker_prep_exists:
  "context_dirs w (sub_pk self) \<noteq> None \<Longrightarrow> docker_prep e self w = (Inl FileExistsError, w)"
  by (simp add: docker_prep_def)

lemma docker_prep_compile_fails:
  assumes "context_dirs w (sub_pk self) = None" "\<not> compile_ok e (source_file self)"
  shows "docker_prep e self w = (Inr None, emit [Gpp (sub_pk self)] w)"
proof -
  have "(context_dirs w)(sub_pk self := None) = context_dirs w"
    using assms(1) by (simp add: fun_upd_idem)
  then show ?thesis
    using assms by (simp add: docker_prep_def emit_def Let_def)
qed

lemma docker_prep_build_fails:
  assumes "context_dirs w (sub_pk self) = None" "compile_ok e (source_file self)"
    "\<not> build_ok e (SubmissionImage (sub_pk self))"
  shows "docker_prep e self w = (Inl BuildError,
           w\<lparr>context_dirs := (context_dirs w)(sub_pk self \<mapsto> context_files (testcase_set self w)),
             trace := trace w @ [Gpp (sub_pk self), ImagesBuild (SubmissionImage (sub_pk self))]\<rparr>)"
  using assms by (simp add: docker_prep_def emit_def Let_def context_files_def testcase_set_def)

lemma docker_prep_ok:
  assumes "context_dirs w (sub_pk self) = None" "compile_ok e (source_file self)"
    "build_ok e (SubmissionImage (sub_pk self))"
  shows "docker_prep e self w = (Inr (Some (SubmissionImage (sub_pk self))),
           w\<lparr>context_dirs := (context_dirs w)(sub_pk self \<mapsto> context_files (testcase_set self w)),
             images := insert (SubmissionImage (sub_pk self)) (images w),
             trace := trace w @ [Gpp (sub_pk self), ImagesBuild (SubmissionImage (sub_pk self))]\<rparr>)"
  using assms by (simp add: docker_prep_def emit_def Let_def context_files_def testcase_set_def)

lemma docker_prep_Some:
  assumes "docker_prep e self w = (Inr (Some tag), w')"
  shows "context_dirs w (sub_pk self) = None \<and> compile_ok e (source_file self) \<and>
         tag = SubmissionImage (sub_pk self) \<and> build_ok e tag"
  using assms by (auto simp: docker_prep_def emit_def Let_def split: if_splits)

lemma docker_prep_None:
  assumes "docker_prep e self w = (Inr None, w')"
  shows "context_dirs w (sub_pk self) = None \<and> \<not> compile_ok e (source_file self)"
  using assms by (auto simp: docker_prep_def emit_def Let_def split: if_splits)

lemma docker_cleanup_ok:
  assumes "tag \<in> images w" "context_dirs w (sub_pk self) \<noteq> None"
  shows "docker_cleanup self (Some tag) w = (Inr (),
           w\<lparr>context_dirs := (context_dirs w)(sub_pk self := None),
             images := images w - {tag},
             trace := trace w @ [ImagesRemove (Some tag)]\<rparr>)"
  using assms by (auto simp: docker_cleanup_def emit_def Let_def)

lemma docker_cleanup_frame:
  "docker_cleanup self image_tag w = (r, w') \<Longrightarrow>
     testcases w' = testcases w \<and> testoutputs w' = testoutputs w \<and>
     submissions w' = submissions w \<and> student_files w' = student_files w \<and>
     containers w' = containers w \<and> log_txt w' = log_txt w"
  by (auto simp: docker_cleanup_def emit_def Let_def split: if_splits option.splits)

lemma docker_cleanup_Inr:
  assumes "docker_cleanup self image_tag w = (Inr u, w')"
  shows "\<exists>tag. image_tag = Some tag \<and> tag \<in> images w \<and> context_dirs w (sub_pk self) \<noteq> None"
  using assms by (auto simp: docker_cleanup_def emit_def Let_def split: if_splits option.splits)

lemma run_all_Inr:
  assumes "run_all e self (Some tag) tcs w = (Inr u, w')"
  shows "(\<forall>tc \<in> set tcs. \<exists>out. run e tag (tc_pk tc) = Finishes out) \<and>
         w' = w\<lparr>testoutputs := testoutputs w @ map (new_row e self tag) tcs,
                 log_txt := log_txt w @ concat (map (log_entry e tag) tcs),
                 trace := trace w @ concat (map (test_events tag) tcs)\<rparr>"
  using assms
proof (induction tcs arbitrary: w)
  case Nil
  then show ?case by simp
next
  case (Cons tc tcs)
  from Cons.prems obtain out w1 where
    st: "single_test e self (Some tag) tc w = (Inr out, w1)" and
    rest: "run_all e self (Some tag) tcs w1 = (Inr u, w')"
    by (auto split: prod.splits sum.splits)
  from single_test_Inr[OF st] have
    fin: "run e tag (tc_pk tc) = Finishes out" and
    w1: "w1 = w\<lparr>testoutputs := testoutputs w @ [new_row e self tag tc],
                 log_txt := log_txt w @ ''Test output:'' @ [CHR 0x0A] @ out,
                 trace := trace w @ test_events tag tc\<rparr>"
    by (auto simp: test_events_def)
  from Cons.IH[OF rest] show ?case
    using fin by (auto simp: w1 log_entry_def captured_def)
qed

lemma run_all_total:
  assumes "tag \<in> images w" "\<forall>tc \<in> set tcs. \<exists>out. run e tag (tc_pk tc) = Finishes out"
  shows "\<exists>w'. run_all e self (Some tag) tcs w = (Inr (), w')"
  using assms
proof (induction tcs arbitrary: w)
  case Nil
  then show ?case by simp
next
  case (Cons tc tcs)
  then obtain out where fin: "run e tag (tc_pk tc) = Finishes out" by auto
  note st = single_test_Finishes[OF Cons.prems(1) fin, of self]
  have "tag \<in> images (snd (single_test e self (Some tag) tc w))"
    using Cons.prems(1) by (simp add: st)
  from Cons.IH[OF this] Cons.prems(2) show ?case
    by (simp add: st)
qed

lemma testcase_set_cong:
  "testcases w' = testcases w \<Longrightarrow> assignment s' = assignment s \<Longrightarrow>
   testcase_set s' w' = testcase_set s w"
  by (simp add: testcase_set_def)

lemma full_test_True:
  assumes "full_test e self w = (Inr True, w')"
  defines "tag \<equiv> SubmissionImage (sub_pk self)"
  shows "context_dirs w (sub_pk self) = None \<and> compile_ok e (source_file self) \<and> build_ok e tag \<and>
         (\<forall>tc \<in> set (testcase_set self w). \<exists>out. run e tag (tc_pk tc) = Finishes out) \<and>
         w' = w\<lparr>testoutputs := others self w @ map (new_row e self tag) (testcase_set self w),
                 images := images w - {tag},
                 log_txt := log_txt w @ concat (map (log_entry e tag) (testcase_set self w)),
                 trace := trace w @ [Gpp (sub_pk self), ImagesBuild tag]
                          @ concat (map (test_events tag) (testcase_set self w))
                          @ [ImagesRemove (Some tag)]\<rparr>"
proof -
  define w0 where "w0 = w\<lparr>testoutputs := others self w\<rparr>"
  from assms(1) obtain t w1 w2 u where
    prep: "docker_prep e self w0 = (Inr (Some t), w1)" and
    runs: "run_all e self (Some t) (testcase_set self w1) w1 = (Inr u, w2)" and
    clean: "docker_cleanup self (Some t) w2 = (Inr (), w')"
    by (auto simp: full_test_def w0_def others_def Let_def
             split: prod.splits sum.splits option.splits)
  from docker_prep_Some[OF prep] have
    fresh: "context_dirs w (sub_pk self) = None" and c: "compile_ok e (source_file self)"
    and t: "t = tag" and b: "build_ok e tag"
    by (auto simp: w0_def tag_def)
  have fresh0: "context_dirs w0 (sub_pk self) = None" using fresh by (simp add: w0_def)
  have w1: "w1 = w0\<lparr>context_dirs := (context_dirs w0)(sub_pk self \<mapsto> context_files (testcase_set self w0)),
             images := insert tag (images w0),
             trace := trace w0 @ [Gpp (sub_pk self), ImagesBuild tag]\<rparr>"
    using prep docker_prep_ok[OF fresh0 c, of ] b by (simp add: tag_def)
  have tcs: "testcase_set self w1 = testcase_set self w"
    by (simp add: w1 w0_def testcase_set_def)
  from run_all_Inr[OF runs] have
    fin: "\<forall>tc \<in> set (testcase_set self w). \<exists>out. run e tag (tc_pk tc) = Finishes out" and
    w2: "w2 = w1\<lparr>testoutputs := testoutputs w1 @ map (new_row e self tag) (testcase_set self w),
                 log_txt := log_txt w1 @ concat (map (log_entry e tag) (testcase_set self w)),
                 trace := trace w1 @ concat (map (test_events tag) (testcase_set self w))\<rparr>"
    by (simp_all add: tcs t)
  have img: "tag \<in> images w2" and dir: "context_dirs w2 (sub_pk self) \<noteq> None"
    by (simp_all add: w2 w1)
  have idem: "(context_dirs w)(sub_pk self := None) = context_dirs w"
    using fresh by (simp add: fun_upd_idem)
  have "w' = w2\<lparr>context_dirs := (context_dirs w2)(sub_pk self := None),
             images := images w2 - {tag},
             trace := trace w2 @ [ImagesRemove (Some tag)]\<rparr>"
    using clean docker_cleanup_ok[OF img dir] by (simp add: t)
  then have "w' = w\<lparr>testoutputs := others self w @ map (new_row e self tag) (testcase_set self w),
                 images := images w - {tag},
                 log_txt := log_txt w @ concat (map (log_entry e tag) (testcase_set self w)),
                 trace := trace w @ [Gpp (sub_pk self), ImagesBuild tag]
                          @ concat (map (test_events tag) (testcase_set self w))
                          @ [ImagesRemove (Some tag)]\<rparr>"
    by (simp add: w2 w1 w0_def idem)
  with fresh c b fin show ?thesis by simp
qed

lemma full_test_False:
  assumes "full_test e self w = (Inr False, w')"
  shows "context_dirs w (sub_pk self) = None \<and> \<not> compile_ok e (source_file self) \<and>
         w' = w\<lparr>testoutputs := others self w, trace := trace w @ [Gpp (sub_pk self)]\<rparr>"
proof -
  define w0 where "w0 = w\<lparr>testoutputs := others self w\<rparr>"
  from assms(1) have prep: "docker_prep e self w0 = (Inr None, w')"
    by (auto simp: full_test_def w0_def others_def Let_def
             split: prod.splits sum.splits option.splits)
  from docker_prep_None[OF prep] have
    fresh: "context_dirs w0 (sub_pk self) = None" and c: "\<not> compile_ok e (source_file self)"
    by simp_all
  from prep docker_prep_compile_fails[OF fresh c] have "w' = emit [Gpp (sub_pk self)] w0"
    by simp
  then show ?thesis using fresh c by (simp add: w0_def emit_def)
qed

lemma full_test_compile_fails:
  assumes "context_dirs w (sub_pk self) = None" "\<not> compile_ok e (source_file self)"
  shows "full_test e self w =
           (Inr False, w\<lparr>testoutputs := others self w, trace := trace w @ [Gpp (sub_pk self)]\<rparr>)"
proof -
  define w0 where "w0 = w\<lparr>testoutputs := others self w\<rparr>"
  have fresh: "context_dirs w0 (sub_pk self) = None" using assms(1) by (simp add: w0_def)
  show ?thesis
    using docker_prep_compile_fails[OF fresh assms(2)]
    by (simp add: full_test_def w0_def others_def Let_def emit_def)
qed

lemma full_test_total:
  assumes "context_dirs w (sub_pk self) = None" "compile_ok e (source_file self)"
    "build_ok e (SubmissionImage (sub_pk self))"
    "\<forall>tc \<in> set (testcase_set self w). \<exists>out. run e (SubmissionImage (sub_pk self)) (tc_pk tc) = Finishes out"
  shows "\<exists>w'. full_test e self w = (Inr True, w')"
proof -
  define tag where "tag = SubmissionImage (sub_pk self)"
  define w0 where "w0 = w\<lparr>testoutputs := others self w\<rparr>"
  define w1 where "w1 = w0\<lparr>context_dirs := (context_dirs w0)(sub_pk self \<mapsto> context_files (testcase_set self w0)),
             images := insert tag (images w0),
             trace := trace w0 @ [Gpp (sub_pk self), ImagesBuild tag]\<rparr>"
  have fresh: "context_dirs w0 (sub_pk self) = None" using assms(1) by (simp add: w0_def)
  have prep: "docker_prep e self w0 = (Inr (Some tag), w1)"
    using docker_prep_ok[OF fresh assms(2)] assms(3) by (simp add: tag_def w1_def)
  have tcs: "testcase_set self w1 = testcase_set self w"
    by (simp add: w1_def w0_def testcase_set_def)
  have img: "tag \<in> images w1" by (simp add: w1_def)
  from run_all_total[OF img, of "testcase_set self w" e self] assms(4)
  obtain w2 where runs: "run_all e self (Some tag) (testcase_set self w) w1 = (Inr (), w2)"
    by (auto simp: tag_def)
  from run_all_Inr[OF runs] have "tag \<in> images w2" "context_dirs w2 (sub_pk self) \<noteq> None"
    by (simp_all add: w1_def)
  from docker_cleanup_ok[OF this] show ?thesis
    using prep runs
    by (simp add: full_test_def Let_def w0_def[symmetric] others_def[symmetric] tcs)
qed

subsection \<open>Saving\<close>

lemma receiver_frame:
  "move_or_delete_submission_file e inst uf w = (r, w') \<Longrightarrow>
     testcases w' = testcases w \<and> testoutputs w' = testoutputs w \<and>
     submissions w' = submissions w \<and>
     context_dirs w' = context_dirs w \<and> images w' = images w \<and>
     containers w' = containers w \<and> log_txt w' = log_txt w \<and> trace w' = trace w"
  unfolding move_or_delete_submission_file_def delete_source_file_def Let_def
  by (auto split: option.splits if_splits)

lemma receiver_instance:
  "move_or_delete_submission_file e inst uf w = (Inr inst', w') \<Longrightarrow>
     sub_pk inst' = sub_pk inst \<and> student inst' = student inst \<and>
     assignment inst' = assignment inst \<and> confirmed inst' = confirmed inst \<and>
     compiles inst' = compiles inst \<and> adding inst' = adding inst \<and>
     (uf = None \<or> SourceFile \<in> set (the uf) \<longrightarrow> source_file inst' = source_file inst)"
  unfolding move_or_delete_submission_file_def delete_source_file_def Let_def
  by (auto split: option.splits if_splits)

lemma super_save_None:
  "super_save e None self w =
     (Inr (self\<lparr>adding := False\<rparr>),
      w\<lparr>submissions := (submissions w)(sub_pk self \<mapsto> self\<lparr>adding := False\<rparr>),
        student_files := insert (source_file self) (student_files w)\<rparr>)"
  by (simp add: super_save_def move_or_delete_submission_file_def Let_def)

lemma super_save_empty: "super_save e (Some []) self w = (Inr self, w)"
  by (simp add: super_save_def)

lemma super_save_Some:
  assumes "fs \<noteq> []"
    and "move_or_delete_submission_file e self (Some fs) w = (r0, w0)"
  shows "super_save e (Some fs) self w =
     (case r0 of
        Inl err \<Rightarrow> (Inl err, w0)
      | Inr s0 \<Rightarrow>
          (case submissions w0 (sub_pk s0) of
             None \<Rightarrow> (Inl DatabaseError, w0)
           | Some row \<Rightarrow>
               (Inr (s0\<lparr>adding := False\<rparr>),
                w0\<lparr>submissions :=
                      (submissions w0)(sub_pk s0 \<mapsto> write_fields fs (s0\<lparr>adding := False\<rparr>) row),
                    student_files :=
                      (if SourceFile \<in> set fs
                       then insert (source_file s0) (student_files w0)
                       else student_files w0)\<rparr>)))"
  using assms
  by (cases r0) (simp_all add: super_save_def Let_def split: option.split)

lemma super_save_frame:
  assumes "super_save e uf self w = (r, w')"
  shows "testcases w' = testcases w \<and> testoutputs w' = testoutputs w \<and>
     context_dirs w' = context_dirs w \<and> images w' = images w \<and>
     containers w' = containers w \<and> log_txt w' = log_txt w \<and> trace w' = trace w"
proof (cases uf)
  case None
  with assms show ?thesis by (auto simp: super_save_None)
next
  case (Some fs)
  show ?thesis
  proof (cases "fs = []")
    case True
    with assms Some show ?thesis by (simp add: super_save_empty)
  next
    case False
    obtain r0 w0 where rc: "move_or_delete_submission_file e self (Some fs) w = (r0, w0)"
      by (cases "move_or_delete_submission_file e self (Some fs) w")
    note fr = receiver_frame[OF rc]
    note eq = super_save_Some[OF False rc]
    show ?thesis
    proof (cases r0)
      case (Inl err)
      with assms Some eq fr show ?thesis by simp
    next
      case (Inr s0)
      show ?thesis
      proof (cases "submissions w0 (sub_pk s0)")
        case None
        with assms Some eq fr Inr show ?thesis by simp
      next
        case (Some row)
        with assms \<open>uf = Some fs\<close> eq Inr have
          "w' = w0\<lparr>submissions :=
                      (submissions w0)(sub_pk s0 \<mapsto> write_fields fs (s0\<lparr>adding := False\<rparr>) row),
                    student_files :=
                      (if SourceFile \<in> set fs
                       then insert (source_file s0) (student_files w0)
                       else student_files w0)\<rparr>"
          by simp
        with fr show ?thesis by simp
      qed
    qed
  qed
qed

lemma super_save_instance:
  assumes "super_save e uf self w = (Inr s1, w')"
  shows "sub_pk s1 = sub_pk self \<and> student s1 = student self \<and>
     assignment s1 = assignment self \<and> confirmed s1 = confirmed self \<and>
     compiles s1 = compiles self \<and>
     (uf = None \<or> SourceFile \<in> set (the uf) \<longrightarrow> source_file s1 = source_file self)"
proof (cases uf)
  case None
  with assms show ?thesis by (auto simp: super_save_None)
next
  case (Some fs)
  show ?thesis
  proof (cases "fs = []")
    case True
    with assms Some show ?thesis by (simp add: super_save_empty)
  next
    case False
    obtain r0 w0 where rc: "move_or_delete_submission_file e self (Some fs) w = (r0, w0)"
      by (cases "move_or_delete_submission_file e self (Some fs) w")
    note eq = super_save_Some[OF False rc]
    show ?thesis
    proof (cases r0)
      case (Inl err)
      with assms Some eq show ?thesis by simp
    next
      case (Inr s0)
      note inst = receiver_instance[OF rc[unfolded Inr]]
      have "s1 = s0\<lparr>adding := False\<rparr>"
      proof (cases "submissions w0 (sub_pk s0)")
        case None
        with assms \<open>uf = Some fs\<close> eq Inr show ?thesis by simp
      next
        case (Some row)
        with assms \<open>uf = Some fs\<close> eq Inr show ?thesis by simp
      qed
      with inst \<open>uf = Some fs\<close> show ?thesis by simp
    qed
  qed
qed

lemma super_save_compiles:
  assumes "super_save e (Some [Compiles]) inst w = (Inr s', w')"
  shows "s' = inst\<lparr>adding := False\<rparr> \<and>
         map_option compiles (submissions w' (sub_pk inst)) = Some (compiles inst) \<and>
         student_files w' = student_files w"
proof -
  have rc: "move_or_delete_submission_file e inst (Some [Compiles]) w = (Inr inst, w)"
    by (simp add: move_or_delete_submission_file_def)
  have ne: "[Compiles] \<noteq> []" by simp
  note eq = super_save_Some[OF ne rc]
  show ?thesis
  proof (cases "submissions w (sub_pk inst)")
    case None
    with assms eq show ?thesis by simp
  next
    case (Some row)
    with assms eq show ?thesis by (auto simp: write_fields_def)
  qed
qed

lemma save_Inr:
  assumes "save e uf run_tests self w = (Inr s', w')"
  shows "run_tests = None \<and>
         (\<exists>s1 w1 b w2.
           super_save e uf self w = (Inr s1, w1) \<and>
           full_test e s1 w1 = (Inr b, w2) \<and>
           super_save e (Some [Compiles]) (s1\<lparr>compiles := b\<rparr>) w2 = (Inr s', w'))"
proof -
  have none: "run_tests = None"
    using assms by (cases run_tests) (simp_all add: save_def)
  obtain r1 w1 where a: "super_save e uf self w = (r1, w1)"
    by (cases "super_save e uf self w")
  with assms none obtain s1 where r1: "r1 = Inr s1"
    by (cases r1) (simp_all add: save_def)
  obtain r2 w2 where b: "full_test e s1 w1 = (r2, w2)"
    by (cases "full_test e s1 w1")
  with assms none a r1 obtain bb where r2: "r2 = Inr bb"
    by (cases r2) (simp_all add: save_def)
  from assms none a r1 b r2 show ?thesis by (simp add: save_def)
qed

lemma filter_others_new:
  "filter (\<lambda>r. to_submission r \<noteq> sub_pk self) (others self w @ map (new_row e self tag) tcs)
     = others self w"
  by (simp add: others_def new_row_def)

lemma filter_own_new:
  "filter (\<lambda>r. to_submission r = sub_pk self) (others self w @ map (new_row e self tag) tcs)
     = map (new_row e self tag) tcs"
  by (simp add: others_def new_row_def filter_empty_conv)

lemma filter_own_others:
  "filter (\<lambda>r. to_submission r = sub_pk self) (others self w) = []"
  by (simp add: others_def filter_empty_conv)

lemma new_row_cong: "sub_pk s' = sub_pk s \<Longrightarrow> new_row e s' = new_row e s"
  by (intro ext) (simp add: new_row_def)

lemma others_cong:
  "sub_pk s' = sub_pk s \<Longrightarrow> testoutputs w' = testoutputs w \<Longrightarrow> others s' w' = others s w"
  by (simp add: others_def)

text \<open>What a save that returns has done.\<close>

lemma save_effect:
  assumes "save e uf run_tests self w = (Inr s', w')"
  defines "tag \<equiv> SubmissionImage (sub_pk self)"
  defines "tcs \<equiv> testcase_set self w"
  shows "sub_pk s' = sub_pk self \<and> assignment s' = assignment self \<and> \<not> adding s' \<and>
         (uf = None \<or> SourceFile \<in> set (the uf) \<longrightarrow> source_file s' = source_file self) \<and>
         context_dirs w (sub_pk self) = None \<and>
         compiles s' = compile_ok e (source_file s') \<and>
         map_option compiles (submissions w' (sub_pk self)) = Some (compiles s') \<and>
         testcases w' = testcases w \<and>
         context_dirs w' = context_dirs w \<and> containers w' = containers w \<and>
         images w' = (if compiles s' then images w - {tag} else images w) \<and>
         testoutputs w' = others self w @ (if compiles s' then map (new_row e self tag) tcs else []) \<and>
         trace w' = trace w @ Gpp (sub_pk self) #
           (if compiles s'
            then ImagesBuild tag # concat (map (test_events tag) tcs) @ [ImagesRemove (Some tag)]
            else []) \<and>
         (compiles s' \<longrightarrow> build_ok e tag \<and>
            (\<forall>tc \<in> set tcs. \<exists>out. run e tag (tc_pk tc) = Finishes out))"
proof -
  from save_Inr[OF assms(1)] obtain s1 w1 b w2 where
    a: "super_save e uf self w = (Inr s1, w1)" and
    b: "full_test e s1 w1 = (Inr b, w2)" and
    c: "super_save e (Some [Compiles]) (s1\<lparr>compiles := b\<rparr>) w2 = (Inr s', w')"
    by blast
  note fa = super_save_frame[OF a] and ia = super_save_instance[OF a]
  note fc = super_save_frame[OF c] and ic = super_save_compiles[OF c]
  have s': "s' = s1\<lparr>compiles := b, adding := False\<rparr>" using ic by simp
  have pk: "sub_pk s1 = sub_pk self" using ia by simp
  have tcs1: "testcase_set s1 w1 = tcs"
    using ia fa by (simp add: tcs_def testcase_set_def)
  have oth: "others s1 w1 = others self w"
    using ia fa by (simp add: others_def)
  have nr: "new_row e s1 = new_row e self" using pk by (rule new_row_cong)
  show ?thesis
  proof (cases b)
    case True
    then have "full_test e s1 w1 = (Inr True, w2)" using b by simp
    from full_test_True[OF this] True ia fa fc ic
    show ?thesis
      by (simp add: s' pk tcs1 oth nr tag_def)
  next
    case False
    then have "full_test e s1 w1 = (Inr False, w2)" using b by simp
    from full_test_False[OF this] False ia fa fc ic
    show ?thesis
      by (simp add: s' pk oth tag_def)
  qed
qed

subsection \<open>Uniqueness of cached results\<close>

lemma single_test_rows:
  assumes "single_test e self image_tag tc w = (r, w')"
  shows "(testoutputs w' = testoutputs w \<and> (\<forall>out. r \<noteq> Inr out)) \<or>
         (\<exists>out. r = Inr out \<and>
            testoutputs w' = testoutputs w @
              [\<lparr>to_submission = sub_pk self, to_testcase = tc_pk tc, to_output = out\<rparr>])"
  using assms
  by (auto simp: single_test_def emit_def Let_def
           split: option.splits if_splits run_outcome.splits)

lemma testoutput_rows_empty:
  "testoutput_rows self tc w = [] \<longleftrightarrow> (sub_pk self, tc_pk tc) \<notin> pair_of ` set (testoutputs w)"
  by (auto simp: testoutput_rows_def filter_empty_conv pair_of_def image_iff)

lemma single_test_unique:
  assumes "unique_pairs w" "testoutput_rows self tc w = []"
    "single_test e self image_tag tc w = (r, w')"
  shows "unique_pairs w'"
  using single_test_rows[OF assms(3)] assms(1,2)
  by (auto simp: unique_pairs_def testoutput_rows_empty pair_of_def)

lemma resolve_all_unique:
  assumes "unique_pairs w" "resolve_all e self tcs client acc w = (r, w')"
  shows "unique_pairs w'"
  using assms
proof (induction tcs arbitrary: client acc w)
  case Nil
  then show ?case by simp
next
  case (Cons tc tcs)
  show ?case
  proof (cases "testoutput_rows self tc w")
    case Nil
    obtain rp wp where prep:
      "(case client of None \<Rightarrow> docker_prep e self w | Some image_tag \<Rightarrow> (Inr image_tag, w)) = (rp, wp)"
      by (cases "(case client of None \<Rightarrow> docker_prep e self w | Some image_tag \<Rightarrow> (Inr image_tag, w))")
    have same: "testoutputs wp = testoutputs w"
      using prep docker_prep_frame[of e self w rp wp] by (cases client) auto
    then have up: "unique_pairs wp" and miss: "testoutput_rows self tc wp = []"
      using Cons.prems(1) Nil by (simp_all add: unique_pairs_def testoutput_rows_def)
    show ?thesis
    proof (cases rp)
      case (Inl err)
      with Cons.prems(2) Nil prep up show ?thesis by simp
    next
      case (Inr image_tag)
      obtain rs ws where st: "single_test e self image_tag tc wp = (rs, ws)"
        by (cases "single_test e self image_tag tc wp")
      note us = single_test_unique[OF up miss st]
      show ?thesis
      proof (cases rs)
        case (Inl err)
        with Cons.prems(2) Nil prep Inr st us show ?thesis by simp
      next
        case (Inr out)
        with Cons.prems(2) Nil prep \<open>rp = Inr image_tag\<close> st
        have "resolve_all e self tcs (Some image_tag) (acc @ [make_result out tc]) ws = (r, w')"
          by simp
        from Cons.IH[OF us this] show ?thesis .
      qed
    qed
  next
    case (Cons row rows)
    show ?thesis
    proof (cases rows)
      case Nil
      with Cons.prems(2) Cons
      have "resolve_all e self tcs client (acc @ [make_result (to_output row) tc]) w = (r, w')"
        by simp
      from Cons.IH[OF Cons.prems(1) this] show ?thesis .
    next
      case (Cons row2 rows2)
      with Cons.prems \<open>testoutput_rows self tc w = row # rows\<close> show ?thesis by simp
    qed
  qed
qed

section \<open>Invalidation and compile failure\<close>

text \<open>
  Claim C6. Saving an existing test case (which is how its input or expected
  output is edited) leaves in the \<open>TestOutput\<close> table exactly the rows that
  reference another test case, in their order: every cached result of the edited
  test case is deleted, whatever its submission, and no other one is.
\<close>

theorem testcase_edit_invalidates_exactly:
  "testoutputs (testcase_save False instance w)
     = filter (\<lambda>r. to_testcase r \<noteq> tc_pk instance) (testoutputs w)"
  by (simp add: testcase_save_def delete_obsolete_testoutputs_def Let_def)

theorem testcase_edit_invalidates_exactly_witness:
  "testoutputs (testcase_save False (example_testcase\<lparr>tc_output := ''9''\<rparr>)
      (example_world\<lparr>testoutputs :=
         [stale_row, \<lparr>to_submission = 1, to_testcase = 2, to_output = ''8''\<rparr>, other_row]\<rparr>))
     = [\<lparr>to_submission = 1, to_testcase = 2, to_output = ''8''\<rparr>]"
  using testcase_edit_invalidates_exactly
    [of "example_testcase\<lparr>tc_output := ''9''\<rparr>"
        "example_world\<lparr>testoutputs :=
         [stale_row, \<lparr>to_submission = 1, to_testcase = 2, to_output = ''8''\<rparr>, other_row]\<rparr>"]
  by (simp add: example_testcase_def example_world_def stale_row_def other_row_def)

text \<open>
  A failed compilation (the bare \<open>except\<close> covers a non-zero exit, the timeout
  and a crash alike) in a state without a context directory of the submission:
  \<open>full_test\<close> returns \<open>False\<close> having only deleted the submission's cached
  results and called the compiler, and a plain \<open>save()\<close> leaves \<open>compiles\<close>
  false on the instance and in its row.
\<close>

lemma compile_failure_fresh_directory:
  assumes "\<not> compile_ok e (source_file self)" and "context_dirs w (sub_pk self) = None"
  shows "full_test e self w =
           (Inr False,
            w\<lparr>testoutputs := filter (\<lambda>r. to_submission r \<noteq> sub_pk self) (testoutputs w),
              trace := trace w @ [Gpp (sub_pk self)]\<rparr>) \<and>
         fst (save e None None self w) = Inr (self\<lparr>compiles := False, adding := False\<rparr>) \<and>
         map_option compiles (submissions (snd (save e None None self w)) (sub_pk self))
           = Some False \<and>
         testoutputs (snd (save e None None self w))
           = filter (\<lambda>r. to_submission r \<noteq> sub_pk self) (testoutputs w) \<and>
         trace (snd (save e None None self w)) = trace w @ [Gpp (sub_pk self)] \<and>
         containers (snd (save e None None self w)) = containers w \<and>
         images (snd (save e None None self w)) = images w \<and>
         context_dirs (snd (save e None None self w)) (sub_pk self) = None"
proof -
  define s1 where "s1 = self\<lparr>adding := False\<rparr>"
  define w1 where "w1 = w\<lparr>submissions := (submissions w)(sub_pk self \<mapsto> s1),
        student_files := insert (source_file self) (student_files w)\<rparr>"
  define w2 where "w2 = w1\<lparr>testoutputs := others s1 w1, trace := trace w1 @ [Gpp (sub_pk s1)]\<rparr>"
  have a: "super_save e None self w = (Inr s1, w1)"
    by (simp add: super_save_None s1_def w1_def)
  have "\<not> compile_ok e (source_file s1)" "context_dirs w1 (sub_pk s1) = None"
    using assms by (simp_all add: s1_def w1_def)
  from full_test_compile_fails[OF this(2) this(1)]
  have b: "full_test e s1 w1 = (Inr False, w2)" by (simp add: w2_def)
  have rc: "move_or_delete_submission_file e (s1\<lparr>compiles := False\<rparr>) (Some [Compiles]) w2
              = (Inr (s1\<lparr>compiles := False\<rparr>), w2)"
    by (simp add: move_or_delete_submission_file_def)
  have ne: "[Compiles] \<noteq> []" by simp
  have row: "submissions w2 (sub_pk (s1\<lparr>compiles := False\<rparr>)) = Some s1"
    by (simp add: w2_def w1_def s1_def)
  have c: "super_save e (Some [Compiles]) (s1\<lparr>compiles := False\<rparr>) w2 =
             (Inr (s1\<lparr>compiles := False, adding := False\<rparr>),
              w2\<lparr>submissions := (submissions w2)(sub_pk s1 \<mapsto>
                     write_fields [Compiles] (s1\<lparr>compiles := False, adding := False\<rparr>) s1)\<rparr>)"
    using super_save_Some[OF ne rc] row by simp
  have sv: "save e None None self w =
             (Inr (s1\<lparr>compiles := False, adding := False\<rparr>),
              w2\<lparr>submissions := (submissions w2)(sub_pk s1 \<mapsto>
                     write_fields [Compiles] (s1\<lparr>compiles := False, adding := False\<rparr>) s1)\<rparr>)"
    by (simp add: save_def a b c)
  have ft: "full_test e self w =
           (Inr False,
            w\<lparr>testoutputs := filter (\<lambda>r. to_submission r \<noteq> sub_pk self) (testoutputs w),
              trace := trace w @ [Gpp (sub_pk self)]\<rparr>)"
    using full_test_compile_fails[OF assms(2) assms(1)] by (simp add: others_def)
  show ?thesis
    using assms(2)
    by (simp add: ft sv s1_def w2_def w1_def others_def write_fields_def)
qed

section \<open>Every save is a full evaluation\<close>

lemmas example_defs =
  example_env_def example_submission_def example_world_def example_testcase_def
  stale_row_def other_row_def fresh_row_def example_output_def

lemmas method_defs =
  save_def super_save_def move_or_delete_submission_file_def delete_source_file_def
  write_fields_def full_test_def docker_prep_def single_test_def docker_cleanup_def
  emit_def testcase_set_def Let_def



section \<open>Replacing the source of a submission\<close>




section \<open>At most one cached result per submission and test case\<close>

lemma run_all_pairs:
  assumes "run_all e self image_tag tcs w = (r, w')"
  shows "\<exists>k. map pair_of (testoutputs w') =
           map pair_of (testoutputs w) @ map (\<lambda>tc. (sub_pk self, tc_pk tc)) (take k tcs)"
  using assms
proof (induction tcs arbitrary: w)
  case Nil
  then show ?case by simp
next
  case (Cons tc tcs)
  obtain rs ws where st: "single_test e self image_tag tc w = (rs, ws)"
    by (cases "single_test e self image_tag tc w")
  show ?case
  proof (cases rs)
    case (Inl err)
    with single_test_rows[OF st] have "testoutputs ws = testoutputs w" by auto
    moreover from Cons.prems st Inl have "w' = ws" by simp
    ultimately have "map pair_of (testoutputs w') =
           map pair_of (testoutputs w) @ map (\<lambda>tc. (sub_pk self, tc_pk tc)) (take 0 (tc # tcs))"
      by simp
    then show ?thesis by blast
  next
    case (Inr out)
    with single_test_rows[OF st] have
      ws: "map pair_of (testoutputs ws) = map pair_of (testoutputs w) @ [(sub_pk self, tc_pk tc)]"
      by (auto simp: pair_of_def)
    from Cons.prems st Inr have "run_all e self image_tag tcs ws = (r, w')" by simp
    from Cons.IH[OF this] obtain k where
      "map pair_of (testoutputs w') =
         map pair_of (testoutputs ws) @ map (\<lambda>tc. (sub_pk self, tc_pk tc)) (take k tcs)"
      by blast
    with ws have "map pair_of (testoutputs w') =
         map pair_of (testoutputs w) @ map (\<lambda>tc. (sub_pk self, tc_pk tc)) (take (Suc k) (tc # tcs))"
      by simp
    then show ?thesis by blast
  qed
qed

lemma full_test_pairs:
  assumes "full_test e self w = (r, w')"
  shows "\<exists>k. map pair_of (testoutputs w') =
           map pair_of (others self w) @
           map (\<lambda>tc. (sub_pk self, tc_pk tc)) (take k (testcase_set self w))"
proof -
  define w0 where "w0 = w\<lparr>testoutputs := others self w\<rparr>"
  obtain rp w1 where prep: "docker_prep e self w0 = (rp, w1)"
    by (cases "docker_prep e self w0")
  note fp = docker_prep_frame[OF prep]
  have none: "testoutputs w1 = others self w \<Longrightarrow> w' = w1 \<Longrightarrow> ?thesis"
  proof -
    assume "testoutputs w1 = others self w" "w' = w1"
    then have "map pair_of (testoutputs w') =
           map pair_of (others self w) @
           map (\<lambda>tc. (sub_pk self, tc_pk tc)) (take 0 (testcase_set self w))"
      by simp
    then show ?thesis by blast
  qed
  have t1: "testoutputs w1 = others self w" using fp by (simp add: w0_def)
  have ft: "full_test e self w =
     (case (rp, w1) of
        (Inl err, w1) \<Rightarrow> (Inl err, w1)
      | (Inr None, w1) \<Rightarrow> (Inr False, w1)
      | (Inr (Some image_tag), w1) \<Rightarrow>
          (case run_all e self (Some image_tag) (testcase_set self w1) w1 of
             (Inl err, w2) \<Rightarrow> (Inl err, w2)
           | (Inr _, w2) \<Rightarrow>
               (case docker_cleanup self (Some image_tag) w2 of
                  (Inl err, w3) \<Rightarrow> (Inl err, w3)
                | (Inr _, w3) \<Rightarrow> (Inr True, w3))))"
    by (simp add: full_test_def Let_def others_def[symmetric] w0_def[symmetric] prep)
  show ?thesis
  proof (cases rp)
    case (Inl err)
    with assms ft have "w' = w1" by simp
    with none t1 show ?thesis by simp
  next
    case (Inr topt)
    show ?thesis
    proof (cases topt)
      case None
      with assms ft Inr have "w' = w1" by simp
      with none t1 show ?thesis by simp
    next
      case (Some image_tag)
      obtain rr w2 where runs: "run_all e self (Some image_tag) (testcase_set self w1) w1 = (rr, w2)"
        by (cases "run_all e self (Some image_tag) (testcase_set self w1) w1")
      have tcs: "testcase_set self w1 = testcase_set self w"
        using fp by (simp add: testcase_set_def w0_def)
      from run_all_pairs[OF runs] obtain k where
        k: "map pair_of (testoutputs w2) =
           map pair_of (others self w) @
           map (\<lambda>tc. (sub_pk self, tc_pk tc)) (take k (testcase_set self w))"
        by (auto simp: t1 tcs)
      have "testoutputs w' = testoutputs w2"
      proof (cases rr)
        case (Inl err)
        with assms ft Inr Some runs show ?thesis by simp
      next
        case (Inr u)
        obtain rc w3 where cl: "docker_cleanup self (Some image_tag) w2 = (rc, w3)"
          by (cases "docker_cleanup self (Some image_tag) w2")
        from assms ft \<open>rp = Inr topt\<close> Some runs Inr cl have "w' = w3"
          by (cases rc) simp_all
        with docker_cleanup_frame[OF cl] show ?thesis by simp
      qed
      with k show ?thesis by auto
    qed
  qed
qed

lemma distinct_pairs_after:
  assumes "distinct (map pair_of rows)" "distinct (map tc_pk tcs)"
  shows "distinct (map pair_of (filter (\<lambda>r. to_submission r \<noteq> pk) rows) @
                   map (\<lambda>tc. (pk, tc_pk tc)) (take k tcs))"
proof -
  have a: "distinct (map pair_of (filter (\<lambda>r. to_submission r \<noteq> pk) rows))"
    using assms(1) by (rule distinct_map_filter)
  have "distinct (map tc_pk (take k tcs))"
    using assms(2) by (simp add: take_map[symmetric])
  then have b: "distinct (map (\<lambda>tc. (pk, tc_pk tc)) (take k tcs))"
    by (simp add: distinct_map inj_on_def)
  have c: "set (map pair_of (filter (\<lambda>r. to_submission r \<noteq> pk) rows)) \<inter>
           set (map (\<lambda>tc. (pk, tc_pk tc)) (take k tcs)) = {}"
    by (auto simp: pair_of_def)
  from a b c show ?thesis by simp
qed

lemma full_test_unique:
  assumes "unique_pairs w" "distinct (map tc_pk (testcases w))"
    "full_test e self w = (r, w')"
  shows "unique_pairs w'"
proof -
  from full_test_pairs[OF assms(3)] obtain k where
    k: "map pair_of (testoutputs w') =
           map pair_of (others self w) @
           map (\<lambda>tc. (sub_pk self, tc_pk tc)) (take k (testcase_set self w))"
    by blast
  have "distinct (map tc_pk (testcase_set self w))"
    using assms(2) by (simp add: testcase_set_def distinct_map_filter)
  from distinct_pairs_after[OF assms(1)[unfolded unique_pairs_def] this]
  show ?thesis by (simp add: unique_pairs_def k others_def)
qed

lemma test_results_unique:
  assumes "unique_pairs w" "test_results e self w = (r, w')"
  shows "unique_pairs w'"
proof (cases "\<not> adding self \<and> \<not> compiles self")
  case True
  with assms show ?thesis by (simp add: test_results_def)
next
  case False
  obtain rr w1 where ra: "resolve_all e self (testcase_set self w) None [] w = (rr, w1)"
    by (cases "resolve_all e self (testcase_set self w) None [] w")
  note u1 = resolve_all_unique[OF assms(1) ra]
  show ?thesis
  proof (cases rr)
    case (Inl err)
    with assms(2) False ra u1 show ?thesis by (simp add: test_results_def)
  next
    case (Inr p)
    obtain ts client where p: "p = (ts, client)" by (cases p)
    show ?thesis
    proof (cases client)
      case None
      with assms(2) False ra Inr p u1 show ?thesis by (simp add: test_results_def)
    next
      case (Some image_tag)
      obtain rc w2 where cl: "docker_cleanup self image_tag w1 = (rc, w2)"
        by (cases "docker_cleanup self image_tag w1")
      from assms(2) False ra Inr p Some cl have "w' = w2"
        by (cases rc) (simp_all add: test_results_def)
      with docker_cleanup_frame[OF cl] u1 show ?thesis
        by (simp add: unique_pairs_def)
    qed
  qed
qed

lemma save_unique:
  assumes "unique_pairs w" "distinct (map tc_pk (testcases w))"
    "save e uf run_tests self w = (r, w')"
  shows "unique_pairs w'"
proof (cases run_tests)
  case (Some given)
  with assms(1,3) show ?thesis by (simp add: save_def)
next
  case None
  obtain r1 w1 where a: "super_save e uf self w = (r1, w1)"
    by (cases "super_save e uf self w")
  note fa = super_save_frame[OF a]
  have u1: "unique_pairs w1" and d1: "distinct (map tc_pk (testcases w1))"
    using assms(1,2) fa by (simp_all add: unique_pairs_def)
  show ?thesis
  proof (cases r1)
    case (Inl err)
    with assms(3) None a u1 show ?thesis by (simp add: save_def)
  next
    case (Inr s1)
    obtain r2 w2 where b: "full_test e s1 w1 = (r2, w2)"
      by (cases "full_test e s1 w1")
    note u2 = full_test_unique[OF u1 d1 b]
    show ?thesis
    proof (cases r2)
      case (Inl err)
      with assms(3) None a \<open>r1 = Inr s1\<close> b u2 show ?thesis by (simp add: save_def)
    next
      case (Inr ok)
      with assms(3) None a \<open>r1 = Inr s1\<close> b
      have "super_save e (Some [Compiles]) (s1\<lparr>compiles := ok\<rparr>) w2 = (r, w')"
        by (simp add: save_def)
      from super_save_frame[OF this] u2 show ?thesis
        by (simp add: unique_pairs_def)
    qed
  qed
qed

lemma testcase_save_unique:
  assumes "unique_pairs w"
  shows "unique_pairs (testcase_save is_adding instance w)"
  using assms
  by (simp add: unique_pairs_def testcase_save_def delete_obsolete_testoutputs_def Let_def
        distinct_map_filter)

text \<open>
  Claim C9. In a state where no two cached results have the same submission
  and test case (and test cases have distinct keys, as the table's primary key
  guarantees), the state reached by the eager evaluation, by the lazy
  evaluation, by a save of a submission and by a save of a test case has the
  same property, whether the operation returns or raises.
\<close>

theorem unique_pairs_preserved:
  assumes "unique_pairs w" and "distinct (map tc_pk (testcases w))"
  shows "unique_pairs (snd (full_test e self w)) \<and>
         unique_pairs (snd (test_results e self w)) \<and>
         unique_pairs (snd (save e update_fields run_tests self w)) \<and>
         unique_pairs (testcase_save is_adding instance w)"
proof -
  have "unique_pairs (snd (full_test e self w))"
    using full_test_unique[OF assms, of e self] by (cases "full_test e self w") simp
  moreover have "unique_pairs (snd (test_results e self w))"
    using test_results_unique[OF assms(1), of e self] by (cases "test_results e self w") simp
  moreover have "unique_pairs (snd (save e update_fields run_tests self w))"
    using save_unique[OF assms, of e update_fields run_tests self]
    by (cases "save e update_fields run_tests self w") simp
  ultimately show ?thesis
    using testcase_save_unique[OF assms(1)] by simp
qed

text \<open>
  In the instance the lazy evaluation of a submission without cached results
  runs its test; the pairs afterwards are those of submission 2 and the new one.
\<close>

theorem unique_pairs_preserved_witness:
  "unique_pairs example_world \<and> distinct (map tc_pk (testcases example_world)) \<and>
   unique_pairs (snd (test_results (example_env True True (Finishes example_output))
                        (example_submission\<lparr>compiles := True\<rparr>)
                        (example_world\<lparr>testoutputs := [other_row]\<rparr>))) \<and>
   map pair_of (testoutputs (snd (test_results (example_env True True (Finishes example_output))
                        (example_submission\<lparr>compiles := True\<rparr>)
                        (example_world\<lparr>testoutputs := [other_row]\<rparr>))))
     = [(2, 1), (1, 1)]"
proof -
  have u: "unique_pairs (example_world\<lparr>testoutputs := [other_row]\<rparr>)"
    by (simp add: unique_pairs_def pair_of_def example_defs)
  have d: "distinct (map tc_pk (testcases (example_world\<lparr>testoutputs := [other_row]\<rparr>)))"
    by (simp add: example_defs)
  have u0: "unique_pairs example_world"
    by (simp add: unique_pairs_def pair_of_def example_defs)
  have rows: "map pair_of (testoutputs (snd (test_results
                  (example_env True True (Finishes example_output))
                  (example_submission\<lparr>compiles := True\<rparr>)
                  (example_world\<lparr>testoutputs := [other_row]\<rparr>)))) = [(2, 1), (1, 1)]"
    by (simp add: test_results_def testoutput_rows_def method_defs example_defs pair_of_def)
  from unique_pairs_preserved[OF u d, of "example_env True True (Finishes example_output)"
         "example_submission\<lparr>compiles := True\<rparr>"]
  show ?thesis using u0 d rows by simp
qed

section \<open>The lazy evaluation\<close>

lemma resolve_all_cached:
  assumes "\<forall>tc \<in> set tcs. testoutput_rows self tc w = [row tc]"
  shows "resolve_all e self tcs client acc w =
           (Inr (acc @ map (\<lambda>tc. make_result (to_output (row tc)) tc) tcs, client), w)"
  using assms by (induction tcs arbitrary: acc) simp_all

lemma new_row_sel:
  "to_submission (new_row e self tag tc) = sub_pk self"
  "to_testcase (new_row e self tag tc) = tc_pk tc"
  "to_output (new_row e self tag tc) = captured (run e tag (tc_pk tc))"
  by (simp_all add: new_row_def)

lemma rows_after_full:
  assumes "distinct (map tc_pk tcs)" "tc \<in> set tcs"
  shows "filter (\<lambda>r. to_submission r = sub_pk self \<and> to_testcase r = tc_pk tc)
           (others self w @ map (new_row e self tag) tcs) = [new_row e self tag tc]"
proof -
  have a: "filter (\<lambda>r. to_submission r = sub_pk self \<and> to_testcase r = tc_pk tc)
             (others self w) = []"
    by (simp add: others_def filter_empty_conv)
  have b: "filter (\<lambda>r. to_submission r = sub_pk self \<and> to_testcase r = tc_pk tc)
             (map (new_row e self tag) tcs) = [new_row e self tag tc]"
    using assms
  proof (induction tcs)
    case Nil
    then show ?case by simp
  next
    case (Cons t ts)
    show ?case
    proof (cases "t = tc")
      case True
      with Cons.prems have "\<forall>x \<in> set ts. tc_pk x \<noteq> tc_pk tc" by (auto simp: image_iff)
      then have "filter (\<lambda>r. to_submission r = sub_pk self \<and> to_testcase r = tc_pk tc)
             (map (new_row e self tag) ts) = []"
        by (simp add: filter_empty_conv new_row_sel)
      with True show ?thesis by (simp add: new_row_sel)
    next
      case False
      with Cons.prems have "tc \<in> set ts" "tc_pk t \<noteq> tc_pk tc" "distinct (map tc_pk ts)"
        by auto
      with Cons.IH show ?thesis by (simp add: new_row_sel)
    qed
  qed
  from a b show ?thesis by simp
qed

text \<open>
  Claim C8. After a save that ran the full evaluation and returned, and with
  nothing edited in between, \<open>test_results\<close> returns without changing the state
  at all (so without any call to the compiler or the container engine, whatever
  they would answer now): every test case is found in the cache. The results
  are the comparison of the outputs which that evaluation captured, in the order
  of the test cases, or the empty list under \<open>compiles = False\<close>.
\<close>

theorem lazy_after_full_is_cache_hit:
  assumes "distinct (map tc_pk (testcases w))"
    and "save e update_fields run_tests self w = (Inr s', w')"
  shows "test_results e' s' w' =
           (Inr \<lparr>res_compiles = compiles s',
                 tests = (if compiles s'
                          then map (\<lambda>tc. make_result
                                          (captured (run e (SubmissionImage (sub_pk self)) (tc_pk tc))) tc)
                                   (testcase_set self w)
                          else [])\<rparr>,
            w') \<and>
         (compiles s' \<longrightarrow>
            (\<forall>tc \<in> set (testcase_set self w).
               \<exists>out. run e (SubmissionImage (sub_pk self)) (tc_pk tc) = Finishes out))"
proof -
  note eff = save_effect[OF assms(2)]
  let ?tag = "SubmissionImage (sub_pk self)"
  have tcs: "testcase_set s' w' = testcase_set self w"
    using eff by (simp add: testcase_set_def)
  have nadd: "\<not> adding s'" using eff by simp
  show ?thesis
  proof (cases "compiles s'")
    case False
    with nadd show ?thesis by (simp add: test_results_def)
  next
    case True
    have d: "distinct (map tc_pk (testcase_set self w))"
      using assms(1) by (simp add: testcase_set_def distinct_map_filter)
    have rows: "testoutputs w' = others self w @ map (new_row e self ?tag) (testcase_set self w)"
      using eff True by simp
    have pk: "sub_pk s' = sub_pk self" using eff by simp
    have hit: "\<forall>tc \<in> set (testcase_set self w).
                 testoutput_rows s' tc w' = [new_row e self ?tag tc]"
      using rows_after_full[OF d] by (simp add: testoutput_rows_def rows pk)
    have "resolve_all e' s' (testcase_set self w) None [] w' =
            (Inr ([] @ map (\<lambda>tc. make_result (to_output (new_row e self ?tag tc)) tc)
                          (testcase_set self w), None), w')"
      using hit by (rule resolve_all_cached)
    then have "test_results e' s' w' =
           (Inr \<lparr>res_compiles = compiles s',
                 tests = map (\<lambda>tc. make_result (captured (run e ?tag (tc_pk tc))) tc)
                             (testcase_set self w)\<rparr>, w')"
      using True by (simp add: test_results_def tcs new_row_sel)
    with True eff show ?thesis by simp
  qed
qed

theorem lazy_after_full_is_cache_hit_witness:
  "(let after = save (example_env True True (Finishes example_output)) (Some [Confirmed]) None
                  (example_submission\<lparr>confirmed := True\<rparr>) example_world
    in distinct (map tc_pk (testcases example_world)) \<and>
       fst after = Inr (example_submission\<lparr>confirmed := True, compiles := True\<rparr>) \<and>
       test_results (example_env False False EngineFails)
           (example_submission\<lparr>confirmed := True, compiles := True\<rparr>) (snd after)
         = (Inr \<lparr>res_compiles = True,
                 tests = [make_result example_output example_testcase]\<rparr>, snd after))"
proof -
  let ?sv = "save (example_env True True (Finishes example_output)) (Some [Confirmed]) None
          (example_submission\<lparr>confirmed := True\<rparr>) example_world"
  have d: "distinct (map tc_pk (testcases example_world))"
    by (simp add: example_defs)
  have r: "fst ?sv = Inr (example_submission\<lparr>confirmed := True, compiles := True\<rparr>)"
    by (simp add: method_defs example_defs)
  then obtain w' where
    sv: "?sv = (Inr (example_submission\<lparr>confirmed := True, compiles := True\<rparr>), w')"
    by (cases ?sv) auto
  have tcs: "testcase_set (example_submission\<lparr>confirmed := True\<rparr>) example_world = [example_testcase]"
    by (simp add: testcase_set_def example_defs)
  have c: "compiles (example_submission\<lparr>confirmed := True, compiles := True\<rparr>)" by simp
  from lazy_after_full_is_cache_hit[OF d sv, of "example_env False False EngineFails"]
  have "test_results (example_env False False EngineFails)
           (example_submission\<lparr>confirmed := True, compiles := True\<rparr>) w'
         = (Inr \<lparr>res_compiles = True,
                 tests = [make_result example_output example_testcase]\<rparr>, w')"
    unfolding tcs
    by (simp add: example_env_def example_submission_def example_testcase_def captured_def)
  with d show ?thesis unfolding Let_def sv by simp
qed

section \<open>Pass and fail\<close>

lemma resolve_all_mono:
  assumes "resolve_all e self tcs client acc w = (r, w')"
  shows "set (testoutputs w) \<subseteq> set (testoutputs w')"
  using assms
proof (induction tcs arbitrary: client acc w)
  case Nil
  then show ?case by simp
next
  case (Cons tc tcs)
  show ?case
  proof (cases "testoutput_rows self tc w")
    case Nil
    obtain rp wp where prep:
      "(case client of None \<Rightarrow> docker_prep e self w | Some image_tag \<Rightarrow> (Inr image_tag, w)) = (rp, wp)"
      by (cases "(case client of None \<Rightarrow> docker_prep e self w | Some image_tag \<Rightarrow> (Inr image_tag, w))")
    have same: "testoutputs wp = testoutputs w"
      using prep docker_prep_frame[of e self w rp wp] by (cases client) auto
    show ?thesis
    proof (cases rp)
      case (Inl err)
      with Cons.prems Nil prep same show ?thesis by simp
    next
      case (Inr image_tag)
      obtain rs ws where st: "single_test e self image_tag tc wp = (rs, ws)"
        by (cases "single_test e self image_tag tc wp")
      from single_test_rows[OF st] have sub: "set (testoutputs wp) \<subseteq> set (testoutputs ws)"
        by auto
      show ?thesis
      proof (cases rs)
        case (Inl err)
        with Cons.prems Nil prep Inr st sub same show ?thesis by simp
      next
        case (Inr out)
        with Cons.prems Nil prep \<open>rp = Inr image_tag\<close> st
        have "resolve_all e self tcs (Some image_tag) (acc @ [make_result out tc]) ws = (r, w')"
          by simp
        from Cons.IH[OF this] sub same show ?thesis by simp
      qed
    qed
  next
    case (Cons row rows)
    show ?thesis
    proof (cases rows)
      case Nil
      with Cons.prems Cons
      have "resolve_all e self tcs client (acc @ [make_result (to_output row) tc]) w = (r, w')"
        by simp
      from Cons.IH[OF this] show ?thesis .
    next
      case (Cons row2 rows2)
      with Cons.prems \<open>testoutput_rows self tc w = row # rows\<close> show ?thesis by simp
    qed
  qed
qed

lemma resolve_all_results:
  assumes "resolve_all e self tcs client acc w = (Inr (ts, client'), w')"
  shows "\<exists>outs. list_all2 (stored self w') outs tcs \<and>
                ts = acc @ map (\<lambda>(out, tc). make_result out tc) (zip outs tcs)"
  using assms
proof (induction tcs arbitrary: client acc w)
  case Nil
  then show ?case by simp
next
  case (Cons tc tcs)
  show ?case
  proof (cases "testoutput_rows self tc w")
    case Nil
    obtain rp wp where prep:
      "(case client of None \<Rightarrow> docker_prep e self w | Some image_tag \<Rightarrow> (Inr image_tag, w)) = (rp, wp)"
      by (cases "(case client of None \<Rightarrow> docker_prep e self w | Some image_tag \<Rightarrow> (Inr image_tag, w))")
    from Cons.prems Nil prep obtain image_tag where rp: "rp = Inr image_tag"
      by (cases rp) simp_all
    obtain rs ws where st: "single_test e self image_tag tc wp = (rs, ws)"
      by (cases "single_test e self image_tag tc wp")
    from Cons.prems Nil prep rp st obtain out where rs: "rs = Inr out"
      by (cases rs) simp_all
    from Cons.prems Nil prep rp st rs
    have rest: "resolve_all e self tcs (Some image_tag) (acc @ [make_result out tc]) ws
                  = (Inr (ts, client'), w')"
      by simp
    from single_test_rows[OF st] rs have "stored self ws out tc"
      by (auto simp: stored_def)
    with resolve_all_mono[OF rest] have here: "stored self w' out tc"
      by (auto simp: stored_def)
    from Cons.IH[OF rest] obtain outs where
      "list_all2 (stored self w') outs tcs"
      "ts = (acc @ [make_result out tc]) @ map (\<lambda>(out, tc). make_result out tc) (zip outs tcs)"
      by blast
    with here have "list_all2 (stored self w') (out # outs) (tc # tcs) \<and>
        ts = acc @ map (\<lambda>(out, tc). make_result out tc) (zip (out # outs) (tc # tcs))"
      by simp
    then show ?thesis by blast
  next
    case (Cons row rows)
    from Cons.prems Cons have rows: "rows = []"
      by (cases rows) simp_all
    with Cons.prems Cons
    have rest: "resolve_all e self tcs client (acc @ [make_result (to_output row) tc]) w
                  = (Inr (ts, client'), w')"
      by simp
    have "row \<in> set (testoutput_rows self tc w)" using Cons by simp
    then have mem: "row \<in> set (testoutputs w)" and f1: "to_submission row = sub_pk self"
      and f2: "to_testcase row = tc_pk tc"
      by (simp_all add: testoutput_rows_def)
    have "row = \<lparr>to_submission = sub_pk self, to_testcase = tc_pk tc,
                  to_output = to_output row\<rparr>"
      using f1 f2 by (cases row) simp
    with mem have "stored self w (to_output row) tc"
      by (simp add: stored_def)
    with resolve_all_mono[OF rest] have here: "stored self w' (to_output row) tc"
      by (auto simp: stored_def)
    from Cons.IH[OF rest] obtain outs where
      "list_all2 (stored self w') outs tcs"
      "ts = (acc @ [make_result (to_output row) tc]) @
            map (\<lambda>(out, tc). make_result out tc) (zip outs tcs)"
      by blast
    with here have "list_all2 (stored self w') (to_output row # outs) (tc # tcs) \<and>
        ts = acc @ map (\<lambda>(out, tc). make_result out tc) (zip (to_output row # outs) (tc # tcs))"
      by simp
    then show ?thesis by blast
  qed
qed

text \<open>
  Claim C1. Every entry of the test list that \<open>test_results\<close> returns belongs to
  the test case at the same position. Its annotated characters spell an output
  that is stored as the cached result of the submission for that test case (found
  in the cache or just captured), and \<open>passed\<close> is true exactly when that
  output equals the expected output of the test case as a string, character by
  character; the flags of the annotation play no part in it.
\<close>

theorem passed_iff_exact_match:
  assumes "test_results e self w = (Inr r, w')" and "i < length (tests r)"
  shows "i < length (testcase_set self w) \<and>
         stored self w' (map a_char (res_output (tests r ! i))) (testcase_set self w ! i) \<and>
         passed (tests r ! i)
           = (map a_char (res_output (tests r ! i)) = tc_output (testcase_set self w ! i))"
proof -
  let ?tcs = "testcase_set self w"
  have go: "\<not> (\<not> adding self \<and> \<not> compiles self)"
  proof
    assume "\<not> adding self \<and> \<not> compiles self"
    with assms(1) have "tests r = []" by (auto simp: test_results_def)
    with assms(2) show False by simp
  qed
  obtain rr w1 where ra: "resolve_all e self ?tcs None [] w = (rr, w1)"
    by (cases "resolve_all e self ?tcs None [] w")
  from assms(1) go ra obtain ts client where rr: "rr = Inr (ts, client)"
    by (cases rr) (auto simp: test_results_def)
  have fin: "tests r = ts \<and> testoutputs w' = testoutputs w1"
  proof (cases client)
    case None
    with assms(1) go ra rr show ?thesis by (auto simp: test_results_def)
  next
    case (Some image_tag)
    obtain rc w2 where cl: "docker_cleanup self image_tag w1 = (rc, w2)"
      by (cases "docker_cleanup self image_tag w1")
    from assms(1) go ra rr Some cl have "tests r = ts \<and> w' = w2"
      by (cases rc) (auto simp: test_results_def)
    with docker_cleanup_frame[OF cl] show ?thesis by simp
  qed
  from resolve_all_results[OF ra[unfolded rr]] obtain outs where
    st: "list_all2 (stored self w1) outs ?tcs" and
    ts: "ts = map (\<lambda>(out, tc). make_result out tc) (zip outs ?tcs)"
    by auto
  have len: "length outs = length ?tcs" using st by (rule list_all2_lengthD)
  have i: "i < length ?tcs" using assms(2) fin ts len by simp
  have nth: "tests r ! i = make_result (outs ! i) (?tcs ! i)"
    using fin ts len i by simp
  have "stored self w1 (outs ! i) (?tcs ! i)"
    using st i len by (simp add: list_all2_nthD2)
  then have "stored self w' (outs ! i) (?tcs ! i)"
    using fin by (simp add: stored_def)
  with i show ?thesis
    by (simp add: nth make_result_def chars_annotate)
qed

text \<open>
  In the instance the cached output of submission 1 is \<open>6\<close> where \<open>5\<close> and a
  line feed are expected: one result, not passed.
\<close>

theorem passed_iff_exact_match_witness:
  "test_results (example_env True True EngineFails) (example_submission\<lparr>compiles := True\<rparr>)
      example_world
     = (Inr \<lparr>res_compiles = True, tests = [make_result ''6'' example_testcase]\<rparr>,
        example_world) \<and>
   stored (example_submission\<lparr>compiles := True\<rparr>) example_world ''6'' example_testcase \<and>
   \<not> passed (make_result ''6'' example_testcase)"
proof -
  have tr: "test_results (example_env True True EngineFails)
              (example_submission\<lparr>compiles := True\<rparr>) example_world
     = (Inr \<lparr>res_compiles = True, tests = [make_result ''6'' example_testcase]\<rparr>,
        example_world)"
    by (simp add: test_results_def testoutput_rows_def testcase_set_def example_defs)
  have len: "0 < length (tests \<lparr>res_compiles = True,
                                  tests = [make_result ''6'' example_testcase]\<rparr>)"
    by simp
  have tcs: "testcase_set (example_submission\<lparr>compiles := True\<rparr>) example_world
               = [example_testcase]"
    by (simp add: testcase_set_def example_defs)
  from passed_iff_exact_match[OF tr len] tr show ?thesis
    by (simp add: tcs make_result_def chars_annotate example_testcase_def)
qed

section \<open>Timeouts and cleanup\<close>

text \<open>
  Claim C2 fails on the code. In the instance the run of the test case exceeds
  the bound: \<open>container.wait\<close> raises, and since nothing in \<open>single_test\<close>
  handles it, the method ends there, having issued the create, the start and
  the wait and nothing else. The instance is neither stopped nor removed and
  stays running, no output is read, no \<open>TestOutput\<close> is created, and the full
  evaluation ends with the same error instead of going on. A run that ends in
  time with logs that do not decode leaves its instance unremoved in the same
  way.
\<close>

theorem timeout_aborts_evaluation:
  "single_test (example_env True True (TimesOut ''5'')) example_submission
      (Some (SubmissionImage 1)) example_testcase
      (example_world\<lparr>images := {SubmissionImage 1}\<rparr>)
     = (Inl ReadTimeout,
        example_world\<lparr>images := {SubmissionImage 1},
          containers := [((SubmissionImage 1, 1), Running)],
          trace := [ContainersCreate (Some (SubmissionImage 1)) 1,
                    ContainerStart (SubmissionImage 1, 1),
                    ContainerWait (SubmissionImage 1, 1)]\<rparr>) \<and>
   fst (full_test (example_env True True (TimesOut ''5'')) example_submission example_world)
     = Inl ReadTimeout \<and>
   testoutputs (snd (full_test (example_env True True (TimesOut ''5'')) example_submission
                        example_world))
     = [other_row] \<and>
   containers (snd (full_test (example_env True True (TimesOut ''5'')) example_submission
                        example_world))
     = [((SubmissionImage 1, 1), Running)] \<and>
   single_test (example_env True True Undecodable) example_submission
      (Some (SubmissionImage 1)) example_testcase
      (example_world\<lparr>images := {SubmissionImage 1}\<rparr>)
     = (Inl UnicodeDecodeError,
        example_world\<lparr>images := {SubmissionImage 1},
          containers := [((SubmissionImage 1, 1), Exited)],
          trace := [ContainersCreate (Some (SubmissionImage 1)) 1,
                    ContainerStart (SubmissionImage 1, 1),
                    ContainerWait (SubmissionImage 1, 1),
                    ContainerLogs (SubmissionImage 1, 1)]\<rparr>)"
  by (simp add: method_defs example_defs)

text \<open>
  The outcomes of \<open>single_test\<close> with the image present. A run that ends within
  the wait with logs that decode has them stored and returned, its instance
  removed after the logs were read; a run that exceeds the bound raises with
  nothing stored; and on no path is the engine asked to stop or kill an
  instance.
\<close>

lemma single_test_outcomes:
  assumes "tag \<in> images w"
  shows "(run e tag (tc_pk tc) = Finishes out \<longrightarrow>
            single_test e self (Some tag) tc w =
              (Inr out,
               w\<lparr>testoutputs := testoutputs w @
                     [\<lparr>to_submission = sub_pk self, to_testcase = tc_pk tc, to_output = out\<rparr>],
                 log_txt := log_txt w @ ''Test output:'' @ [CHR 0x0A] @ out,
                 trace := trace w @
                     [ContainersCreate (Some tag) (tc_pk tc),
                      ContainerStart (tag, tc_pk tc), ContainerWait (tag, tc_pk tc),
                      ContainerLogs (tag, tc_pk tc), ContainerRemove (tag, tc_pk tc)]\<rparr>)) \<and>
         (run e tag (tc_pk tc) = TimesOut partial \<longrightarrow>
            fst (single_test e self (Some tag) tc w) = Inl ReadTimeout \<and>
            testoutputs (snd (single_test e self (Some tag) tc w)) = testoutputs w) \<and>
         filter forced_stop (trace (snd (single_test e self (Some tag) tc w)))
           = filter forced_stop (trace w)"
proof -
  have a: "run e tag (tc_pk tc) = Finishes out \<longrightarrow>
            single_test e self (Some tag) tc w =
              (Inr out,
               w\<lparr>testoutputs := testoutputs w @
                     [\<lparr>to_submission = sub_pk self, to_testcase = tc_pk tc, to_output = out\<rparr>],
                 log_txt := log_txt w @ ''Test output:'' @ [CHR 0x0A] @ out,
                 trace := trace w @
                     [ContainersCreate (Some tag) (tc_pk tc),
                      ContainerStart (tag, tc_pk tc), ContainerWait (tag, tc_pk tc),
                      ContainerLogs (tag, tc_pk tc), ContainerRemove (tag, tc_pk tc)]\<rparr>)"
    using assms by (simp add: single_test_def emit_def Let_def)
  have b: "run e tag (tc_pk tc) = TimesOut partial \<longrightarrow>
            fst (single_test e self (Some tag) tc w) = Inl ReadTimeout \<and>
            testoutputs (snd (single_test e self (Some tag) tc w)) = testoutputs w"
    using assms by (simp add: single_test_def emit_def Let_def)
  have c: "filter forced_stop (trace (snd (single_test e self (Some tag) tc w)))
           = filter forced_stop (trace w)"
    using assms
    by (cases "run e tag (tc_pk tc)")
       (simp_all add: single_test_def emit_def Let_def forced_stop_def)
  from a b c show ?thesis by blast
qed

text \<open>
  Claim C3 fails on the code, which cleans up after a failed compilation and
  after a complete run only. When the image build raises, the context directory
  that \<open>docker_prep\<close> created is left; when a test-case execution raises, in the
  eager and in the lazy evaluation alike, the directory and the image are left.
\<close>

theorem cleanup_skipped_on_failure:
  "fst (full_test (example_env True False (Finishes example_output)) example_submission
          example_world) = Inl BuildError \<and>
   context_dirs (snd (full_test (example_env True False (Finishes example_output))
          example_submission example_world)) 1
     = Some [StudentProgram, Dockerfile, InputFile 1] \<and>
   fst (full_test (example_env True True (TimesOut [])) example_submission example_world)
     = Inl ReadTimeout \<and>
   context_dirs (snd (full_test (example_env True True (TimesOut [])) example_submission
          example_world)) 1
     = Some [StudentProgram, Dockerfile, InputFile 1] \<and>
   images (snd (full_test (example_env True True (TimesOut [])) example_submission
          example_world)) = {SubmissionImage 1} \<and>
   fst (test_results (example_env True True (TimesOut []))
          (example_submission\<lparr>compiles := True\<rparr>) (example_world\<lparr>testoutputs := []\<rparr>))
     = Inl ReadTimeout \<and>
   context_dirs (snd (test_results (example_env True True (TimesOut []))
          (example_submission\<lparr>compiles := True\<rparr>) (example_world\<lparr>testoutputs := []\<rparr>))) 1
     = Some [StudentProgram, Dockerfile, InputFile 1] \<and>
   images (snd (test_results (example_env True True (TimesOut []))
          (example_submission\<lparr>compiles := True\<rparr>) (example_world\<lparr>testoutputs := []\<rparr>)))
     = {SubmissionImage 1}"
  by (simp add: test_results_def testoutput_rows_def method_defs example_defs)

text \<open>
  Claim C4 fails on the code in the state that the failure of claim C3 leaves
  behind. The context directory of submission 1 is still there from the
  evaluation that raised out of the image build; its source is then replaced by
  one that does not compile. \<open>os.makedirs\<close> stands before the \<open>try\<close> and raises
  on the existing directory: the compiler is never called, \<open>full_test\<close> and the
  save raise, \<open>compiles\<close> stays true in the row, and the directory stays on
  disk.
\<close>

theorem stale_directory_blocks_compile_failure:
  "context_dirs stale_world 1 = Some [StudentProgram, Dockerfile, InputFile 1] \<and>
   \<not> compile_ok (example_env False True EngineFails)
        (source_file (graded_submission\<lparr>source_file := ''b.cpp''\<rparr>)) \<and>
   full_test (example_env False True EngineFails)
      (graded_submission\<lparr>source_file := ''b.cpp''\<rparr>) stale_world
     = (Inl FileExistsError, stale_world) \<and>
   fst (save (example_env False True EngineFails) (Some [SourceFile]) None
          (graded_submission\<lparr>source_file := ''b.cpp''\<rparr>) stale_world)
     = Inl FileExistsError \<and>
   map_option compiles
     (submissions (snd (save (example_env False True EngineFails) (Some [SourceFile]) None
          (graded_submission\<lparr>source_file := ''b.cpp''\<rparr>) stale_world)) 1)
     = Some True \<and>
   context_dirs (snd (save (example_env False True EngineFails) (Some [SourceFile]) None
          (graded_submission\<lparr>source_file := ''b.cpp''\<rparr>) stale_world)) 1
     = Some [StudentProgram, Dockerfile, InputFile 1] \<and>
   trace (snd (save (example_env False True EngineFails) (Some [SourceFile]) None
          (graded_submission\<lparr>source_file := ''b.cpp''\<rparr>) stale_world))
     = trace stale_world"
  by (simp add: stale_world_def graded_world_def graded_submission_def
        method_defs example_defs)

end
